theory Spec2Isabelle
  imports Complex_Main "HOL-Library.Multiset" "HOL-Library.Sublist" "HOL-Library.Char_ord"
    "HOL-Library.List_Lexorder"
begin

section \<open>The COVID data explorer: parameters and derived view model\<close>

text \<open>
  \<^verbatim>\<open>src/charts/covidDataExplorer/CovidDataExplorer.tsx\<close>.
  The component reads \<^verbatim>\<open>this.props.params\<close> (a \<^verbatim>\<open>CovidQueryParams\<close>) and
  \<^verbatim>\<open>this.constrainedParams\<close>; both carry the same fields. The record below lists the
  fields the component reads or writes.
\<close>

record covid_params =
  casesMetric :: bool
  testsMetric :: bool
  deathsMetric :: bool
  cfrMetric :: bool
  testsPerCaseMetric :: bool
  positiveTestRate :: bool
  totalFreq :: bool
  dailyFreq :: bool
  smoothing :: nat
  perCapita :: bool
  aligned :: bool
  hideControls :: bool
  selectedCountryCodes :: "string set"

subsection \<open>Country selection\<close>

text \<open>
  \<^verbatim>\<open>toggleSelectedCountry(code: string, value?: boolean)\<close>: the optional argument is
  \<open>None\<close> when it is \<^verbatim>\<open>undefined\<close>. The JavaScript \<^verbatim>\<open>Set\<close> is mutated in place; the
  model returns the parameters with the new set.
\<close>

definition toggleSelectedCountry :: "string \<Rightarrow> bool option \<Rightarrow> covid_params \<Rightarrow> covid_params" where
  "toggleSelectedCountry code v p =
     (if v = Some True then p\<lparr>selectedCountryCodes := insert code (selectedCountryCodes p)\<rparr>
      else if v = Some False then p\<lparr>selectedCountryCodes := selectedCountryCodes p - {code}\<rparr>
      else if code \<in> selectedCountryCodes p
        then p\<lparr>selectedCountryCodes := selectedCountryCodes p - {code}\<rparr>
      else p\<lparr>selectedCountryCodes := insert code (selectedCountryCodes p)\<rparr>)"

subsection \<open>Metric picker\<close>

definition clearMetricsCommand :: "covid_params \<Rightarrow> covid_params" where
  "clearMetricsCommand p =
     p\<lparr>casesMetric := False, testsMetric := False, deathsMetric := False,
       cfrMetric := False, testsPerCaseMetric := False, positiveTestRate := False\<rparr>"

text \<open>
  A \<^verbatim>\<open>ControlOption\<close>. The change handler is a function on the parameters
  (\<^verbatim>\<open>this.props.params\<close>); its \<^verbatim>\<open>value\<close> argument is ignored by every metric
  handler. Each handler ends with \<^verbatim>\<open>this.updateChart()\<close>, which only schedules a redraw
  and assigns to the chart's properties, never to the parameters, so it does not appear
  in the parameter transformer.
\<close>

record control_option =
  available :: bool
  label :: string
  checked :: bool
  onChange :: "covid_params \<Rightarrow> covid_params"

text \<open>The two option columns of \<^verbatim>\<open>metricPicker\<close>; the argument is \<^verbatim>\<open>constrainedParams\<close>.\<close>

definition metricPicker_options :: "covid_params \<Rightarrow> control_option list" where
  "metricPicker_options c =
     [\<lparr>available = True, label = ''Confirmed cases'', checked = casesMetric c,
       onChange = (\<lambda>p. (clearMetricsCommand p)\<lparr>casesMetric := True\<rparr>)\<rparr>,
      \<lparr>available = True, label = ''Confirmed deaths'', checked = deathsMetric c,
       onChange = (\<lambda>p. (clearMetricsCommand p)\<lparr>deathsMetric := True\<rparr>)\<rparr>,
      \<lparr>available = True, label = ''Case fatality rate'', checked = cfrMetric c,
       onChange = (\<lambda>p. (clearMetricsCommand p)\<lparr>cfrMetric := True\<rparr>)\<rparr>]"

definition metricPicker_optionsColumn2 :: "covid_params \<Rightarrow> control_option list" where
  "metricPicker_optionsColumn2 c =
     [\<lparr>available = True, label = ''Tests'', checked = testsMetric c,
       onChange = (\<lambda>p. (clearMetricsCommand p)\<lparr>testsMetric := True\<rparr>)\<rparr>,
      \<lparr>available = True, label = ''Tests per confirmed case'', checked = testsPerCaseMetric c,
       onChange = (\<lambda>p. (clearMetricsCommand p)\<lparr>testsPerCaseMetric := True\<rparr>)\<rparr>,
      \<lparr>available = True, label = ''Share of positive tests'', checked = positiveTestRate c,
       onChange = (\<lambda>p. (clearMetricsCommand p)\<lparr>positiveTestRate := True\<rparr>)\<rparr>]"

definition metricPicker :: "covid_params \<Rightarrow> control_option list" where
  "metricPicker c = metricPicker_options c @ metricPicker_optionsColumn2 c"

text \<open>The six metric flags, in the order \<^verbatim>\<open>clearMetricsCommand\<close> resets them.\<close>

definition metricFlags :: "covid_params \<Rightarrow> bool list" where
  "metricFlags p =
     [casesMetric p, testsMetric p, deathsMetric p, cfrMetric p, testsPerCaseMetric p,
      positiveTestRate p]"

definition countTrue :: "bool list \<Rightarrow> nat" where
  "countTrue bs = length (filter (\<lambda>b. b) bs)"

subsection \<open>Chart title\<close>

definition perCapitaDivisor :: "covid_params \<Rightarrow> nat" where
  "perCapitaDivisor c = (if testsMetric c then 1000 else 1000000)"

text \<open>The object literal \<^verbatim>\<open>perCapitaOptions\<close>: a lookup outside its three keys is undefined.\<close>

definition perCapitaOptions :: "nat \<Rightarrow> string option" where
  "perCapitaOptions k =
     (if k = 1 then Some ''''
      else if k = 1000 then Some ''per 1,000 people''
      else if k = 1000000 then Some ''per million people''
      else None)"

text \<open>String concatenation with \<^verbatim>\<open>undefined\<close> yields the text "undefined".\<close>

definition perCapitaTitle :: "covid_params \<Rightarrow> string" where
  "perCapitaTitle c =
     '' '' @ (case perCapitaOptions (if perCapita c then perCapitaDivisor c else 1) of
                Some s \<Rightarrow> s
              | None \<Rightarrow> ''undefined'')"

definition chartTitle :: "covid_params \<Rightarrow> string" where
  "chartTitle params =
     (let freq = (if dailyFreq params then ''Daily new'' else ''Cumulative'');
          title =
            (if cfrMetric params then ''Case fatality rate of the ongoing COVID-19 pandemic''
             else if positiveTestRate params then
               ''The share of '' @ (if dailyFreq params then ''daily '' else '''')
                 @ ''COVID-19 tests that are positive''
             else if testsPerCaseMetric params then
               (if totalFreq params then ''Cumulative tests'' else ''Tests'')
                 @ '' conducted per confirmed case of COVID-19''
             else if testsMetric params then freq @ '' COVID-19 tests''
             else if deathsMetric params then freq @ '' confirmed COVID-19 deaths''
             else if casesMetric params then freq @ '' confirmed COVID-19 cases''
             else '''')
      in title @ perCapitaTitle params)"

subsection \<open>Client-side variables and their ids\<close>

text \<open>
  \<^verbatim>\<open>MetricKind\<close>: the column names passed to \<^verbatim>\<open>initVariableAndGetId\<close>
  ("tests", "cases", "deaths", "case_fatality_rate", "tests_per_case",
  "positive_test_rate").
\<close>

datatype MetricKind =
  kind_tests | kind_cases | kind_deaths | kind_case_fatality_rate | kind_tests_per_case
  | kind_positive_test_rate

text \<open>
  The row accessors that \<^verbatim>\<open>yVariableId\<close> passes on, one constructor per arrow
  function of the source, in source order. The two accessors that read
  \<^verbatim>\<open>params.smoothing === 7\<close> carry that test as their argument.
\<close>

datatype RowAccessor =
  acc_new_tests bool
  | acc_total_tests
  | acc_new_cases
  | acc_total_cases
  | acc_new_deaths
  | acc_total_deaths
  | acc_cfr_daily
  | acc_cfr_total
  | acc_tests_per_case_daily_smoothed
  | acc_tests_per_case_daily
  | acc_tests_per_case_total
  | acc_positive_test_rate_daily bool
  | acc_positive_test_rate_total

text \<open>
  An entry of \<^verbatim>\<open>owidVariableSet.variables\<close>. \<^verbatim>\<open>buildCovidVariable\<close> lives in
  \<^verbatim>\<open>CovidDataUtils\<close>; a variable it builds is represented by the arguments of the call
  (id, column name, accessor, per-capita divisor, rolling average, daily, source suffix).
\<close>

datatype OwidVariable =
  continentsVariable
  | buildCovidVariable nat MetricKind RowAccessor nat nat bool string

text \<open>
  The mutable parts of the component that \<^verbatim>\<open>yVariableId\<close> touches: the variable
  table, the private flag \<^verbatim>\<open>_smoothedAdded\<close>, and the console.
\<close>

record explorer =
  variables :: "nat \<Rightarrow> OwidVariable option"
  smoothedAdded :: bool
  console :: "string list"

text \<open>
  What the component takes from elsewhere: \<^verbatim>\<open>buildCovidVariableId\<close> (of
  \<^verbatim>\<open>CovidDataUtils\<close>) and the text of \<^verbatim>\<open>this.lastUpdated\<close>.
\<close>

record explorer_env =
  buildCovidVariableId :: "MetricKind \<Rightarrow> nat \<Rightarrow> nat \<Rightarrow> bool \<Rightarrow> nat"
  lastUpdated :: string

text \<open>
  \<^verbatim>\<open>initVariableAndGetId(columnName, rowFn, daily = false, perCapita = ...)\<close>; the last
  argument is \<open>None\<close> when the caller leaves it to its default.
\<close>

definition initVariableAndGetId ::
  "explorer_env \<Rightarrow> covid_params \<Rightarrow> MetricKind \<Rightarrow> RowAccessor \<Rightarrow> bool \<Rightarrow> nat option
     \<Rightarrow> explorer \<Rightarrow> nat \<times> explorer" where
  "initVariableAndGetId env c columnName rowFn daily perCapitaArg e =
     (let perCap = (case perCapitaArg of
                      Some v \<Rightarrow> v
                    | None \<Rightarrow> (if perCapita c then perCapitaDivisor c else 1));
          smooth = smoothing c;
          vid = buildCovidVariableId env columnName perCap smooth daily;
          alreadySmoothed =
            ((columnName = kind_tests \<or> columnName = kind_tests_per_case
                \<or> columnName = kind_positive_test_rate) \<and> smooth = 7)
      in if variables e vid = None
         then (vid, e\<lparr>variables := (variables e)(vid \<mapsto>
                 buildCovidVariable vid columnName rowFn perCap
                   (if alreadySmoothed then 1 else smooth) daily
                   (if columnName = kind_tests then '''' else '' - '' @ lastUpdated env))\<rparr>)
         else (vid, e))"

text \<open>
  \<^verbatim>\<open>addNewCasesSmoothed\<close> adds a column to the data rows once; of that only the flag
  is kept here.
\<close>

definition addNewCasesSmoothed :: "explorer \<Rightarrow> explorer" where
  "addNewCasesSmoothed e = (if smoothedAdded e then e else e\<lparr>smoothedAdded := True\<rparr>)"

definition yVariableId :: "explorer_env \<Rightarrow> covid_params \<Rightarrow> explorer \<Rightarrow> nat \<times> explorer" where
  "yVariableId env params e =
     (if testsMetric params \<and> dailyFreq params then
        initVariableAndGetId env params kind_tests (acc_new_tests (smoothing params = 7)) True None e
      else if testsMetric params \<and> totalFreq params then
        initVariableAndGetId env params kind_tests acc_total_tests False None e
      else if casesMetric params \<and> dailyFreq params then
        initVariableAndGetId env params kind_cases acc_new_cases True None e
      else if casesMetric params \<and> totalFreq params then
        initVariableAndGetId env params kind_cases acc_total_cases False None e
      else if deathsMetric params \<and> dailyFreq params then
        initVariableAndGetId env params kind_deaths acc_new_deaths True None e
      else if deathsMetric params \<and> totalFreq params then
        initVariableAndGetId env params kind_deaths acc_total_deaths False None e
      else if cfrMetric params \<and> dailyFreq params then
        initVariableAndGetId env params kind_case_fatality_rate acc_cfr_daily True None e
      else if cfrMetric params \<and> totalFreq params then
        initVariableAndGetId env params kind_case_fatality_rate acc_cfr_total False None e
      else if testsPerCaseMetric params \<and> dailyFreq params then
        (if smoothing params \<noteq> 0 then
           initVariableAndGetId env params kind_tests_per_case
             acc_tests_per_case_daily_smoothed True None (addNewCasesSmoothed e)
         else
           initVariableAndGetId env params kind_tests_per_case
             acc_tests_per_case_daily True None e)
      else if testsPerCaseMetric params \<and> totalFreq params then
        initVariableAndGetId env params kind_tests_per_case acc_tests_per_case_total False None e
      else if positiveTestRate params \<and> dailyFreq params then
        initVariableAndGetId env params kind_positive_test_rate
          (acc_positive_test_rate_daily (smoothing params = 7)) True None (addNewCasesSmoothed e)
      else if positiveTestRate params \<and> totalFreq params then
        initVariableAndGetId env params kind_positive_test_rate
          acc_positive_test_rate_total False None e
      else (0, e\<lparr>console := console e @ [''Error: no variable id generated.'']\<rparr>))"

text \<open>
  The variable table as the component initialises it
  (\<^verbatim>\<open>variables: { 123: continentsVariable(this.countryOptions) }\<close>).
\<close>

definition initial_variables :: "nat \<Rightarrow> OwidVariable option" where
  "initial_variables = (\<lambda>k. if k = 123 then Some continentsVariable else None)"

text \<open>The metric flags seen as one condition.\<close>

definition anyMetric :: "covid_params \<Rightarrow> bool" where
  "anyMetric p \<longleftrightarrow> casesMetric p \<or> testsMetric p \<or> deathsMetric p \<or> cfrMetric p
     \<or> testsPerCaseMetric p \<or> positiveTestRate p"

text \<open>Two parameter states with the same metric, frequency and per-capita settings.\<close>

definition sameTitleSettings :: "covid_params \<Rightarrow> covid_params \<Rightarrow> bool" where
  "sameTitleSettings p q \<longleftrightarrow> metricFlags p = metricFlags q \<and> dailyFreq p = dailyFreq q
     \<and> totalFreq p = totalFreq q \<and> perCapita p = perCapita q"

section \<open>The sortable data table\<close>

text \<open>\<^verbatim>\<open>src/charts/DataTable.tsx\<close>.\<close>

subsection \<open>Sort state\<close>

datatype SortOrder = asc | desc

text \<open>
  \<^verbatim>\<open>ColumnKey\<close>: the keys of \<^verbatim>\<open>columnNameByType\<close> (single, start, end, delta,
  deltaRatio).
\<close>

datatype ColumnKey = key_single | key_start | key_end | key_delta | key_deltaRatio

definition ENTITY_DIM_INDEX :: int where
  "ENTITY_DIM_INDEX = - 1"

record DataTableSortState =
  dimIndex :: int
  columnKey :: "ColumnKey option"
  order :: SortOrder

definition DEFAULT_SORT_STATE :: DataTableSortState where
  "DEFAULT_SORT_STATE = \<lparr>dimIndex = ENTITY_DIM_INDEX, columnKey = None, order = asc\<rparr>"

definition inverseSortOrder :: "SortOrder \<Rightarrow> SortOrder" where
  "inverseSortOrder ord = (if ord = asc then desc else asc)"

subsection \<open>What the table reads of its transform\<close>

text \<open>
  A JavaScript number: a finite value, an infinity, or NaN. Sorting only compares
  numbers, and on finite floating-point values the order is the order of the rationals
  they denote.
\<close>

datatype jsnumber = Finite rat | PosInfinity | NegInfinity | NaN

definition isFinite :: "jsnumber \<Rightarrow> bool" where
  "isFinite n = (case n of Finite _ \<Rightarrow> True | _ \<Rightarrow> False)"

definition isNaN :: "jsnumber \<Rightarrow> bool" where
  "isNaN n = (n = NaN)"

text \<open>A value of type \<^verbatim>\<open>number | string\<close>.\<close>

datatype SortValue = Num jsnumber | Str string

text \<open>\<^verbatim>\<open>Value\<close>: its \<^verbatim>\<open>value\<close> field is optional.\<close>

record Value =
  val :: "SortValue option"
  formattedValue :: "string option"
  year :: "int option"

text \<open>
  \<^verbatim>\<open>DimensionValue\<close>: a single value, or the values of a range; every field may be
  absent. \<^verbatim>\<open>isSingleValue\<close> and \<^verbatim>\<open>isRangeValue\<close> tell the two apart.
\<close>

datatype DimensionValue =
  SingleValue "Value option"
  | RangeValue "Value option" "Value option" "Value option" "Value option"

definition isSingleValue :: "DimensionValue \<Rightarrow> bool" where
  "isSingleValue dv = (case dv of SingleValue _ \<Rightarrow> True | _ \<Rightarrow> False)"

definition isRangeValue :: "DimensionValue \<Rightarrow> bool" where
  "isRangeValue dv = (case dv of RangeValue _ _ _ _ \<Rightarrow> True | _ \<Rightarrow> False)"

text \<open>\<^verbatim>\<open>columnKey in RangeValueKey\<close>: the range keys are start, end, delta and deltaRatio.\<close>

definition inRangeValueKey :: "ColumnKey \<Rightarrow> bool" where
  "inRangeValueKey k = (k \<noteq> key_single)"

text \<open>\<^verbatim>\<open>dv[key]\<close>: the field of a dimension value under a column key, if it has one.\<close>

fun dvField :: "DimensionValue \<Rightarrow> ColumnKey \<Rightarrow> Value option" where
  "dvField (SingleValue s) key_single = s"
| "dvField (SingleValue s) _ = None"
| "dvField (RangeValue st en de dr) key_start = st"
| "dvField (RangeValue st en de dr) key_end = en"
| "dvField (RangeValue st en de dr) key_delta = de"
| "dvField (RangeValue st en de dr) key_deltaRatio = dr"
| "dvField (RangeValue st en de dr) key_single = None"

record DataTableRow =
  entity :: string
  dimensionValues :: "DimensionValue option list"

record DataTableColumn =
  key :: ColumnKey
  sortable :: bool

record DataTableDimension =
  columns :: "DataTableColumn list"

text \<open>
  The parts of a \<^verbatim>\<open>DataTableTransform\<close> that the table reads: its dimensions (of which
  only the number is used), \<^verbatim>\<open>dimensionsWithValues\<close> and \<^verbatim>\<open>displayRows\<close>.
\<close>

record DataTableTransform =
  dimensions :: "string list"
  dimensionsWithValues :: "DataTableDimension list"
  displayRows :: "DataTableRow list"

text \<open>
  Reading a JavaScript array at an index: outside the array the result is
  \<^verbatim>\<open>undefined\<close>.
\<close>

definition at_index :: "'a list \<Rightarrow> int \<Rightarrow> 'a option" where
  "at_index xs i = (if 0 \<le> i \<and> i < int (length xs) then Some (xs ! nat i) else None)"

datatype js_error = TypeError

text \<open>
  \<^verbatim>\<open>get sortState()\<close>. The stored state has all three fields, so the spread over
  \<^verbatim>\<open>DEFAULT_SORT_STATE\<close> yields the stored fields. Reading \<^verbatim>\<open>.columns\<close> of a missing
  entry of \<^verbatim>\<open>dimensionsWithValues\<close> throws.
\<close>

definition sortState :: "DataTableSortState \<Rightarrow> DataTableTransform \<Rightarrow> js_error + DataTableSortState"
  where
  "sortState stored t =
     (let dimIdx = min (dimIndex stored) (int (length (dimensions t)) - 1) in
      if dimIdx \<noteq> ENTITY_DIM_INDEX then
        (case at_index (dimensionsWithValues t) dimIdx of
           None \<Rightarrow> Inl TypeError
         | Some d \<Rightarrow>
             (let availableColumns = map key (columns d) in
              if (case columnKey stored of
                    None \<Rightarrow> True
                  | Some k \<Rightarrow> k \<notin> set availableColumns)
              then Inr \<lparr>dimIndex = dimIdx, columnKey = at_index availableColumns 0,
                         order = order stored\<rparr>
              else Inr \<lparr>dimIndex = dimIdx, columnKey = columnKey stored,
                         order = order stored\<rparr>))
      else Inr \<lparr>dimIndex = dimIdx, columnKey = columnKey stored, order = order stored\<rparr>)"

text \<open>
  \<^verbatim>\<open>updateSort(dimIndex, columnKey?)\<close> reads the derived sort state and assigns the three
  fields of the stored one; the result is the new stored state.
\<close>

definition updateSort ::
  "int \<Rightarrow> ColumnKey option \<Rightarrow> DataTableSortState \<Rightarrow> DataTableTransform
     \<Rightarrow> js_error + DataTableSortState" where
  "updateSort dimIdx colKey stored t =
     (case sortState stored t of
        Inl e \<Rightarrow> Inl e
      | Inr sortSt \<Rightarrow>
          (let ord = (if dimIndex sortSt = dimIdx \<and> columnKey sortSt = colKey
                      then inverseSortOrder (order sortSt) else asc)
           in Inr \<lparr>dimIndex = dimIdx, columnKey = colKey, order = ord\<rparr>))"

subsection \<open>Sort keys and displayed rows\<close>

text \<open>
  The function that \<^verbatim>\<open>get sortValueMapper()\<close> returns for a sort state, applied to a
  row.
\<close>

definition sortValueMapper :: "DataTableSortState \<Rightarrow> DataTableRow \<Rightarrow> SortValue" where
  "sortValueMapper sortSt row =
     (if dimIndex sortSt = ENTITY_DIM_INDEX then Str (entity row)
      else
        (let dv = (case at_index (dimensionValues row) (dimIndex sortSt) of
                     None \<Rightarrow> None
                   | Some d \<Rightarrow> d);
             v = (case dv of
                    None \<Rightarrow> None
                  | Some d \<Rightarrow>
                      if isSingleValue d then
                        (case dvField d key_single of None \<Rightarrow> None | Some x \<Rightarrow> val x)
                      else if isRangeValue d \<and> columnKey sortSt \<noteq> None
                              \<and> inRangeValueKey (the (columnKey sortSt)) then
                        (case dvField d (the (columnKey sortSt)) of
                           None \<Rightarrow> None
                         | Some x \<Rightarrow> val x)
                      else None);
             last_key = (if order sortSt = asc then Num PosInfinity else Num NegInfinity)
         in case v of
              None \<Rightarrow> last_key
            | Some (Num n) \<Rightarrow> (if \<not> isFinite n \<or> isNaN n then last_key else Num n)
            | Some (Str s) \<Rightarrow> Str s))"

text \<open>
  The comparison \<^verbatim>\<open><\<close> of JavaScript. Two numbers are compared as numbers, and
  the result is false when either is NaN; two strings are compared lexicographically on
  their character codes; a string against a number is first converted to a number. That
  conversion (\<^verbatim>\<open>ToNumber\<close>) is built into the language; it is the first argument
  here.
\<close>

fun num_lt :: "jsnumber \<Rightarrow> jsnumber \<Rightarrow> bool" where
  "num_lt (Finite a) (Finite b) = (a < b)"
| "num_lt (Finite a) PosInfinity = True"
| "num_lt NegInfinity (Finite b) = True"
| "num_lt NegInfinity PosInfinity = True"
| "num_lt _ _ = False"

fun js_lt :: "(string \<Rightarrow> jsnumber) \<Rightarrow> SortValue \<Rightarrow> SortValue \<Rightarrow> bool" where
  "js_lt toNumber (Num a) (Num b) = num_lt a b"
| "js_lt toNumber (Str a) (Str b) = (a < b)"
| "js_lt toNumber (Str a) (Num b) = num_lt (toNumber a) b"
| "js_lt toNumber (Num a) (Str b) = num_lt a (toNumber b)"

text \<open>
  Modelled from the spec: \<^verbatim>\<open>orderBy\<close> is imported from \<^verbatim>\<open>./Util\<close>, which is not among
  the sources. It is taken to be a stable sort of the collection by the key that the
  iteratee gives, ascending or descending as told, comparing keys with \<^verbatim>\<open><\<close> and
  \<^verbatim>\<open>>\<close>: each element, from the last to the first, is inserted behind the elements
  whose key comes strictly before its own.
\<close>

fun insertBy :: "('k \<Rightarrow> 'k \<Rightarrow> bool) \<Rightarrow> ('a \<Rightarrow> 'k) \<Rightarrow> 'a \<Rightarrow> 'a list \<Rightarrow> 'a list" where
  "insertBy before f x [] = [x]"
| "insertBy before f x (y # ys) =
     (if before (f y) (f x) then y # insertBy before f x ys else x # y # ys)"

definition comesBefore ::
  "(string \<Rightarrow> jsnumber) \<Rightarrow> SortOrder \<Rightarrow> SortValue \<Rightarrow> SortValue \<Rightarrow> bool" where
  "comesBefore toNumber ord a b = (if ord = asc then js_lt toNumber a b else js_lt toNumber b a)"

definition orderBy ::
  "(string \<Rightarrow> jsnumber) \<Rightarrow> 'a list \<Rightarrow> ('a \<Rightarrow> SortValue) \<Rightarrow> SortOrder \<Rightarrow> 'a list" where
  "orderBy toNumber collection iteratee ord =
     foldr (insertBy (comesBefore toNumber ord) iteratee) collection []"

text \<open>\<^verbatim>\<open>get displayRows()\<close> of the table, for a stored sort state and a transform.\<close>

definition table_displayRows ::
  "(string \<Rightarrow> jsnumber) \<Rightarrow> DataTableSortState \<Rightarrow> DataTableTransform
     \<Rightarrow> js_error + DataTableRow list" where
  "table_displayRows toNumber stored t =
     (case sortState stored t of
        Inl e \<Rightarrow> Inl e
      | Inr sortSt \<Rightarrow>
          Inr (orderBy toNumber (displayRows t) (sortValueMapper sortSt) (order sortSt)))"

text \<open>
  Keys that \<^verbatim>\<open><\<close> orders: all of them numbers, or all of them strings. Two keys are in
  order when they are equal or the first comes strictly before the second.
\<close>

definition comparableKeys :: "SortValue list \<Rightarrow> bool" where
  "comparableKeys ks \<longleftrightarrow>
     list_all (\<lambda>k. case k of Num _ \<Rightarrow> True | Str _ \<Rightarrow> False) ks
     \<or> list_all (\<lambda>k. case k of Num _ \<Rightarrow> False | Str _ \<Rightarrow> True) ks"

definition inOrder ::
  "(string \<Rightarrow> jsnumber) \<Rightarrow> SortOrder \<Rightarrow> SortValue \<Rightarrow> SortValue \<Rightarrow> bool" where
  "inOrder toNumber ord a b \<longleftrightarrow> a = b \<or> comesBefore toNumber ord a b"

section \<open>The search-indexing script\<close>

text \<open>\<^verbatim>\<open>src/scripts/indexToAlgolia.ts\<close>.\<close>

subsection \<open>Data\<close>

text \<open>An entry of \<^verbatim>\<open>countries\<close> (of \<^verbatim>\<open>utils/countries\<close>).\<close>

record country =
  country_slug :: string
  country_name :: string

text \<open>A row of the table \<^verbatim>\<open>wp_posts\<close>, with the columns the script and its query read.\<close>

record wp_row =
  ID :: nat
  post_type :: string
  post_status :: string
  post_content :: string

text \<open>The post that \<^verbatim>\<open>formatPost\<close> returns, with the fields the script reads.\<close>

record formatted_post =
  fp_id :: nat
  fp_type :: string
  fp_slug :: string
  fp_title :: string
  fp_excerpt :: string
  fp_authors :: "string list"
  fp_date :: string
  fp_modifiedDate :: string
  fp_html :: string

text \<open>
  The two shapes of object pushed to \<^verbatim>\<open>records\<close>: a country record (objectID, slug,
  title, content; its type is "country"), and a record of one chunk of a post
  (objectID, postId, type, slug, title, excerpt, authors, date, modifiedDate, content).
\<close>

datatype algolia_record =
  CountryRecord string string string string
  | ChunkRecord string nat string string string string "string list" string string string

fun objectID :: "algolia_record \<Rightarrow> string" where
  "objectID (CountryRecord oid _ _ _) = oid"
| "objectID (ChunkRecord oid _ _ _ _ _ _ _ _ _) = oid"

text \<open>A number inside a template literal: its decimal digits.\<close>

fun string_of_nat :: "nat \<Rightarrow> string" where
  "string_of_nat n =
     (if n < 10 then [''0123456789'' ! n]
      else string_of_nat (n div 10) @ [''0123456789'' ! (n mod 10)])"

declare string_of_nat.simps [simp del]

subsection \<open>Calls to the outside\<close>

text \<open>
  The calls the script issues to the search service and the database, with their
  arguments. \<^verbatim>\<open>'raw\<close> is the type of what \<^verbatim>\<open>wpdb.getFullPost\<close> returns.
\<close>

datatype 'raw call =
  InitIndex string
  | CopyIndex string string "string list"
  | Query string
  | GetFullPost wp_row
  | FormatPost 'raw
  | SaveObjects string "algolia_record list"
  | MoveIndex string string
  | DbEnd

text \<open>
  A run that ends in an exception: the calls issued so far, the last of them being the
  one that was rejected.
\<close>

datatype 'raw failure = Aborted "'raw call list"

text \<open>
  The outside world of one run: the imported \<^verbatim>\<open>countries\<close>; the table
  \<^verbatim>\<open>wp_posts\<close>, its rows in the order the database returns them, and the
  comparison the database applies to a column value and a string literal (its
  collation); the results of the helpers that are not part of the script
  (\<^verbatim>\<open>wpdb.getFullPost\<close>, \<^verbatim>\<open>formatPost\<close>, \<^verbatim>\<open>htmlToPlaintext\<close>,
  \<^verbatim>\<open>chunkParagraphs\<close>); and which calls are rejected.
\<close>

record 'raw world =
  countries :: "country list"
  wp_posts :: "wp_row list"
  collation :: "string \<Rightarrow> string \<Rightarrow> bool"
  getFullPost :: "wp_row \<Rightarrow> 'raw"
  formatPost :: "'raw \<Rightarrow> formatted_post"
  htmlToPlaintext :: "string \<Rightarrow> string"
  chunkParagraphs :: "string \<Rightarrow> nat \<Rightarrow> string list"
  rejects :: "'raw call \<Rightarrow> bool"

text \<open>
  An awaited call: it is appended to the calls issued so far; if it is rejected the
  exception ends the run.
\<close>

definition await :: "'raw world \<Rightarrow> 'raw call \<Rightarrow> 'raw call list \<Rightarrow> 'raw failure + 'raw call list"
  where
  "await w c tr = (if rejects w c then Inl (Aborted (tr @ [c])) else Inr (tr @ [c]))"

text \<open>The text of the query that the script sends.\<close>

definition posts_query :: string where
  "posts_query =
     ''SELECT * FROM wp_posts WHERE (post_type='post' OR post_type='page') AND post_status='publish''
       @ [CHR 0x27]"

subsection \<open>The database\<close>

text \<open>
  Modelled from the spec: \<^verbatim>\<open>db/wpdb\<close> and the relational store behind it are not
  among the sources. The store is taken to answer a query text of the form
  \<^verbatim>\<open>SELECT * FROM table WHERE condition\<close>, where the condition is built from
  comparisons \<^verbatim>\<open>column='literal'\<close> with \<^verbatim>\<open>AND\<close>, \<^verbatim>\<open>OR\<close> (which binds less
  tightly) and parentheses, with the rows of the table that satisfy the condition. Any
  other text, table or column is refused. The text is first cut into tokens.
\<close>

datatype sql_token = T_word string | T_literal string | T_eq | T_star | T_lparen | T_rparen

datatype lex_state = Outside | InWord string | InLiteral string

datatype char_class = Space | Punct sql_token | Quote | WordChar | Other

definition classify :: "char \<Rightarrow> char_class" where
  "classify c =
     (if c = CHR '' '' then Space
      else if c = CHR ''('' then Punct T_lparen
      else if c = CHR '')'' then Punct T_rparen
      else if c = CHR ''='' then Punct T_eq
      else if c = CHR ''*'' then Punct T_star
      else if c = CHR 0x27 then Quote
      else if c \<in> set ''abcdefghijklmnopqrstuvwxyzABCDEFGHIJKLMNOPQRSTUVWXYZ0123456789_''
        then WordChar
      else Other)"

definition emit :: "sql_token \<Rightarrow> sql_token list option \<Rightarrow> sql_token list option" where
  "emit t r = map_option ((#) t) r"

fun lex :: "lex_state \<Rightarrow> string \<Rightarrow> sql_token list option" where
  "lex Outside [] = Some []"
| "lex (InWord w) [] = Some [T_word w]"
| "lex (InLiteral l) [] = None"
| "lex Outside (c # cs) =
     (case classify c of
        Space \<Rightarrow> lex Outside cs
      | Punct t \<Rightarrow> emit t (lex Outside cs)
      | Quote \<Rightarrow> lex (InLiteral []) cs
      | WordChar \<Rightarrow> lex (InWord [c]) cs
      | Other \<Rightarrow> None)"
| "lex (InWord w) (c # cs) =
     (case classify c of
        Space \<Rightarrow> emit (T_word w) (lex Outside cs)
      | Punct t \<Rightarrow> emit (T_word w) (emit t (lex Outside cs))
      | Quote \<Rightarrow> emit (T_word w) (lex (InLiteral []) cs)
      | WordChar \<Rightarrow> lex (InWord (w @ [c])) cs
      | Other \<Rightarrow> None)"
| "lex (InLiteral l) (c # cs) =
     (if c = CHR 0x27 then emit (T_literal l) (lex Outside cs)
      else lex (InLiteral (l @ [c])) cs)"

text \<open>
  Conditions, and their parser by recursive descent; the first argument bounds the depth
  of the descent and is given the number of tokens.
\<close>

datatype sql_cond = Eq string string | And sql_cond sql_cond | Or sql_cond sql_cond

fun parse_or :: "nat \<Rightarrow> sql_token list \<Rightarrow> (sql_cond \<times> sql_token list) option"
  and parse_and :: "nat \<Rightarrow> sql_token list \<Rightarrow> (sql_cond \<times> sql_token list) option"
  and parse_atom :: "nat \<Rightarrow> sql_token list \<Rightarrow> (sql_cond \<times> sql_token list) option"
  where
  "parse_or 0 ts = None"
| "parse_or (Suc n) ts =
     (case parse_and n ts of
        None \<Rightarrow> None
      | Some (l, rest) \<Rightarrow>
          (case rest of
             T_word k # rest' \<Rightarrow>
               (if k = ''OR'' then
                  (case parse_or n rest' of
                     None \<Rightarrow> None
                   | Some (r, rest'') \<Rightarrow> Some (Or l r, rest''))
                else Some (l, rest))
           | _ \<Rightarrow> Some (l, rest)))"
| "parse_and 0 ts = None"
| "parse_and (Suc n) ts =
     (case parse_atom n ts of
        None \<Rightarrow> None
      | Some (l, rest) \<Rightarrow>
          (case rest of
             T_word k # rest' \<Rightarrow>
               (if k = ''AND'' then
                  (case parse_and n rest' of
                     None \<Rightarrow> None
                   | Some (r, rest'') \<Rightarrow> Some (And l r, rest''))
                else Some (l, rest))
           | _ \<Rightarrow> Some (l, rest)))"
| "parse_atom 0 ts = None"
| "parse_atom (Suc n) ts =
     (case ts of
        T_lparen # rest \<Rightarrow>
          (case parse_or n rest of
             Some (c, T_rparen # rest') \<Rightarrow> Some (c, rest')
           | _ \<Rightarrow> None)
      | T_word col # T_eq # T_literal v # rest \<Rightarrow> Some (Eq col v, rest)
      | _ \<Rightarrow> None)"

definition parse_select :: "sql_token list \<Rightarrow> (string \<times> sql_cond) option" where
  "parse_select ts =
     (case ts of
        T_word s # T_star # T_word f # T_word table # T_word wh # rest \<Rightarrow>
          (if s = ''SELECT'' \<and> f = ''FROM'' \<and> wh = ''WHERE'' then
             (case parse_or (length rest) rest of
                Some (c, []) \<Rightarrow> Some (table, c)
              | _ \<Rightarrow> None)
           else None)
      | _ \<Rightarrow> None)"

text \<open>The columns of \<^verbatim>\<open>wp_posts\<close>, and when a row satisfies a condition.\<close>

definition column :: "string \<Rightarrow> wp_row \<Rightarrow> string option" where
  "column c r =
     (if c = ''ID'' then Some (string_of_nat (ID r))
      else if c = ''post_type'' then Some (post_type r)
      else if c = ''post_status'' then Some (post_status r)
      else if c = ''post_content'' then Some (post_content r)
      else None)"

fun columns_known :: "sql_cond \<Rightarrow> bool" where
  "columns_known (Eq c v) = (c \<in> {''ID'', ''post_type'', ''post_status'', ''post_content''})"
| "columns_known (And a b) = (columns_known a \<and> columns_known b)"
| "columns_known (Or a b) = (columns_known a \<and> columns_known b)"

fun satisfies :: "(string \<Rightarrow> string \<Rightarrow> bool) \<Rightarrow> wp_row \<Rightarrow> sql_cond \<Rightarrow> bool" where
  "satisfies eq r (Eq c v) = (case column c r of Some x \<Rightarrow> eq x v | None \<Rightarrow> False)"
| "satisfies eq r (And a b) = (satisfies eq r a \<and> satisfies eq r b)"
| "satisfies eq r (Or a b) = (satisfies eq r a \<or> satisfies eq r b)"

text \<open>
  Modelled from the spec: \<^verbatim>\<open>wpdb.query\<close> (of \<^verbatim>\<open>db/wpdb\<close>, not among the
  sources) on a query text: the rows of \<^verbatim>\<open>wp_posts\<close> that satisfy the condition of
  the text under the collation of the database, or nothing when the text is refused.
\<close>

definition wpdb_query :: "'raw world \<Rightarrow> string \<Rightarrow> wp_row list option" where
  "wpdb_query w text =
     (case lex Outside text of
        None \<Rightarrow> None
      | Some ts \<Rightarrow>
          (case parse_select ts of
             None \<Rightarrow> None
           | Some (table, cond) \<Rightarrow>
               (if table = ''wp_posts'' \<and> columns_known cond
                then Some (filter (\<lambda>r. satisfies (collation w) r cond) (wp_posts w))
                else None)))"

subsection \<open>The script\<close>

definition countryRecord :: "country \<Rightarrow> algolia_record" where
  "countryRecord c =
     CountryRecord (country_slug c) (country_slug c) (country_name c)
       (''All available indicators for '' @ country_name c @ ''.'')"

text \<open>The first loop: one record pushed per country.\<close>

fun pushCountries :: "country list \<Rightarrow> algolia_record list \<Rightarrow> algolia_record list" where
  "pushCountries [] records = records"
| "pushCountries (c # cs) records = pushCountries cs (records @ [countryRecord c])"

definition chunkRecord :: "wp_row \<Rightarrow> formatted_post \<Rightarrow> nat \<Rightarrow> string \<Rightarrow> algolia_record" where
  "chunkRecord row post i c =
     ChunkRecord (string_of_nat (ID row) @ ''-c'' @ string_of_nat i) (fp_id post) (fp_type post)
       (fp_slug post) (fp_title post) (fp_excerpt post) (fp_authors post) (fp_date post)
       (fp_modifiedDate post) c"

text \<open>The inner loop over the chunks of one post, with its counter \<^verbatim>\<open>i\<close>.\<close>

fun pushChunks ::
  "wp_row \<Rightarrow> formatted_post \<Rightarrow> string list \<Rightarrow> nat \<Rightarrow> algolia_record list \<Rightarrow> algolia_record list"
  where
  "pushChunks row post [] i records = records"
| "pushChunks row post (c # cs) i records =
     pushChunks row post cs (i + 1) (records @ [chunkRecord row post i c])"

text \<open>The loop over the rows; the state is the calls issued and the records so far.\<close>

fun postLoop ::
  "'raw world \<Rightarrow> wp_row list \<Rightarrow> 'raw call list \<Rightarrow> algolia_record list
     \<Rightarrow> 'raw failure + ('raw call list \<times> algolia_record list)" where
  "postLoop w [] tr records = Inr (tr, records)"
| "postLoop w (row # rows) tr records =
     (case await w (GetFullPost row) tr of
        Inl e \<Rightarrow> Inl e
      | Inr tr1 \<Rightarrow>
          (let rawPost = getFullPost w row in
           case await w (FormatPost rawPost) tr1 of
             Inl e \<Rightarrow> Inl e
           | Inr tr2 \<Rightarrow>
               (let post = formatPost w rawPost;
                    postText = htmlToPlaintext w (fp_html post);
                    chunks = chunkParagraphs w postText 1000
                in postLoop w rows tr2 (pushChunks row post chunks 0 records))))"

text \<open>\<^verbatim>\<open>records.slice(i, j)\<close> for \<open>i \<le> j\<close>.\<close>

definition slice :: "'a list \<Rightarrow> nat \<Rightarrow> nat \<Rightarrow> 'a list" where
  "slice xs i j = take (j - i) (drop i xs)"

text \<open>The upload loop \<^verbatim>\<open>for (let i = 0; i < records.length; i += 1000)\<close>.\<close>

function saveLoop ::
  "'raw world \<Rightarrow> string \<Rightarrow> algolia_record list \<Rightarrow> nat \<Rightarrow> 'raw call list
     \<Rightarrow> 'raw failure + 'raw call list" where
  "saveLoop w tmpIndex records i tr =
     (if i < length records then
        (case await w (SaveObjects tmpIndex (slice records i (i + 1000))) tr of
           Inl e \<Rightarrow> Inl e
         | Inr tr' \<Rightarrow> saveLoop w tmpIndex records (i + 1000) tr')
      else Inr tr)"
  by pat_completeness auto
termination
  by (relation "measure (\<lambda>(w, tmpIndex, records, i, tr). length records - i)") auto

declare saveLoop.simps [simp del]

text \<open>
  \<^verbatim>\<open>indexToAlgolia\<close>. The result is the list of calls issued, in order, or the failure
  that ended the run. An index that \<^verbatim>\<open>initIndex\<close> returns has the name it was asked
  for. A query that the database refuses is a rejected call. The last call,
  \<^verbatim>\<open>wpdb.end()\<close>, is issued without \<^verbatim>\<open>await\<close>: whatever becomes of it, the run
  has ended normally.
\<close>

definition indexToAlgolia :: "'raw world \<Rightarrow> 'raw failure + 'raw call list" where
  "indexToAlgolia w =
     (case await w (InitIndex ''pages'') [] of
        Inl e \<Rightarrow> Inl e
      | Inr tr_final \<Rightarrow>
     (case await w (InitIndex ''pages_tmp'') tr_final of
        Inl e \<Rightarrow> Inl e
      | Inr tr0 \<Rightarrow>
     (let finalIndex = ''pages''; tmpIndex = ''pages_tmp'' in
      case await w (CopyIndex finalIndex tmpIndex [''settings'', ''synonyms'', ''rules'']) tr0 of
        Inl e \<Rightarrow> Inl e
      | Inr tr1 \<Rightarrow>
          (case await w (Query posts_query) tr1 of
             Inl e \<Rightarrow> Inl e
           | Inr tr2 \<Rightarrow>
               (case wpdb_query w posts_query of
                  None \<Rightarrow> Inl (Aborted tr2)
                | Some rows \<Rightarrow>
                    (let records = pushCountries (countries w) []
                     in case postLoop w rows tr2 records of
                          Inl e \<Rightarrow> Inl e
                        | Inr (tr3, records') \<Rightarrow>
                            (case saveLoop w tmpIndex records' 0 tr3 of
                               Inl e \<Rightarrow> Inl e
                             | Inr tr4 \<Rightarrow>
                                 (case await w (MoveIndex tmpIndex finalIndex) tr4 of
                                    Inl e \<Rightarrow> Inl e
                                  | Inr tr5 \<Rightarrow> Inr (tr5 @ [DbEnd])))))))))"

text \<open>The calls issued by a run, whether it ended normally or not.\<close>

fun calls_of :: "'raw failure + 'raw call list \<Rightarrow> 'raw call list" where
  "calls_of (Inl (Aborted tr)) = tr"
| "calls_of (Inr tr) = tr"

text \<open>The record lists uploaded by a sequence of calls, in order.\<close>

fun uploads :: "'raw call list \<Rightarrow> algolia_record list list" where
  "uploads [] = []"
| "uploads (SaveObjects idx recs # cs) = recs # uploads cs"
| "uploads (_ # cs) = uploads cs"

subsection \<open>The job as the specification describes it\<close>

text \<open>
  A linear batch job with no retry: a fixed list of calls is issued in order, each once
  and each awaited, and the first rejected call ends the run.
\<close>

fun run_linear :: "'raw world \<Rightarrow> 'raw call list \<Rightarrow> 'raw call list \<Rightarrow> 'raw failure + 'raw call list"
  where
  "run_linear w [] tr = Inr tr"
| "run_linear w (c # cs) tr =
     (case await w c tr of Inl e \<Rightarrow> Inl e | Inr tr' \<Rightarrow> run_linear w cs tr')"

text \<open>
  Published content: a row whose type is "post" or "page" and whose status is
  "publish", as the database compares strings.
\<close>

definition published :: "'raw world \<Rightarrow> wp_row \<Rightarrow> bool" where
  "published w r \<longleftrightarrow>
     (collation w (post_type r) ''post'' \<or> collation w (post_type r) ''page'')
     \<and> collation w (post_status r) ''publish''"

text \<open>The records of one post: one per chunk, numbered from 0.\<close>

definition postRecords :: "'raw world \<Rightarrow> wp_row \<Rightarrow> algolia_record list" where
  "postRecords w row =
     (let post = formatPost w (getFullPost w row);
          chunks = chunkParagraphs w (htmlToPlaintext w (fp_html post)) 1000
      in map (\<lambda>(i, c). chunkRecord row post i c) (enumerate 0 chunks))"

text \<open>The record list: the countries first, then the published posts in row order.\<close>

definition all_records :: "'raw world \<Rightarrow> algolia_record list" where
  "all_records w =
     map countryRecord (countries w)
     @ concat (map (postRecords w) (filter (published w) (wp_posts w)))"

text \<open>A list cut into consecutive slices of \<open>n\<close> elements, the last one possibly shorter.\<close>

function slices :: "nat \<Rightarrow> 'a list \<Rightarrow> 'a list list" where
  "slices n xs = (if n = 0 \<or> xs = [] then [] else take n xs # slices n (drop n xs))"
  by pat_completeness auto
termination
  by (relation "measure (\<lambda>(n, xs). length xs)") auto

declare slices.simps [simp del]

text \<open>
  The awaited calls of the job, in order; after them the database connection is closed.
\<close>

definition planned_calls :: "'raw world \<Rightarrow> 'raw call list" where
  "planned_calls w =
     [InitIndex ''pages'', InitIndex ''pages_tmp'',
      CopyIndex ''pages'' ''pages_tmp'' [''settings'', ''synonyms'', ''rules''],
      Query posts_query]
     @ concat (map (\<lambda>row. [GetFullPost row, FormatPost (getFullPost w row)])
                (filter (published w) (wp_posts w)))
     @ map (SaveObjects ''pages_tmp'') (slices 1000 (all_records w))
     @ [MoveIndex ''pages_tmp'' ''pages'']"

section \<open>Properties of the data explorer\<close>

text \<open>
  Claim C10. \<^verbatim>\<open>toggleSelectedCountry\<close>: called with \<^verbatim>\<open>true\<close> the code is selected
  afterwards, called with \<^verbatim>\<open>false\<close> it is not, called with \<^verbatim>\<open>undefined\<close> its
  membership is flipped; the membership of every other code, and every other parameter,
  stays as it was.
\<close>

theorem toggleSelectedCountry_membership:
  "code \<in> selectedCountryCodes (toggleSelectedCountry code (Some True) p)
   \<and> code \<notin> selectedCountryCodes (toggleSelectedCountry code (Some False) p)
   \<and> (code \<in> selectedCountryCodes (toggleSelectedCountry code None p)
        \<longleftrightarrow> code \<notin> selectedCountryCodes p)
   \<and> (\<forall>other. other \<noteq> code \<longrightarrow>
        (other \<in> selectedCountryCodes (toggleSelectedCountry code v p)
           \<longleftrightarrow> other \<in> selectedCountryCodes p))
   \<and> toggleSelectedCountry code v p
       = p\<lparr>selectedCountryCodes := selectedCountryCodes (toggleSelectedCountry code v p)\<rparr>"
  by (simp add: toggleSelectedCountry_def)

theorem toggleSelectedCountry_membership_witness:
  "''USA'' \<in> selectedCountryCodes (toggleSelectedCountry ''FRA'' None
      \<lparr>casesMetric = True, testsMetric = False, deathsMetric = False, cfrMetric = False,
       testsPerCaseMetric = False, positiveTestRate = False, totalFreq = True,
       dailyFreq = False, smoothing = 0, perCapita = False, aligned = False,
       hideControls = False, selectedCountryCodes = {''USA'', ''FRA''}\<rparr>)
   \<and> ''FRA'' \<notin> selectedCountryCodes (toggleSelectedCountry ''FRA'' None
      \<lparr>casesMetric = True, testsMetric = False, deathsMetric = False, cfrMetric = False,
       testsPerCaseMetric = False, positiveTestRate = False, totalFreq = True,
       dailyFreq = False, smoothing = 0, perCapita = False, aligned = False,
       hideControls = False, selectedCountryCodes = {''USA'', ''FRA''}\<rparr>)"
  using toggleSelectedCountry_membership [of "''FRA''"
      "\<lparr>casesMetric = True, testsMetric = False, deathsMetric = False, cfrMetric = False,
       testsPerCaseMetric = False, positiveTestRate = False, totalFreq = True,
       dailyFreq = False, smoothing = 0, perCapita = False, aligned = False,
       hideControls = False, selectedCountryCodes = {''USA'', ''FRA''}\<rparr>" None]
  by simp

subsection \<open>Metric picker\<close>

text \<open>
  Claim C9. Metric selection is mutually exclusive: \<^verbatim>\<open>clearMetricsCommand\<close> sets all
  six metric flags to false, every change handler of the metric picker runs it first and
  then sets its own flag, so after any of the six handlers exactly one of the six flags
  is true (cases, deaths, case fatality rate in the first column; tests, tests per case,
  share of positive tests in the second).
\<close>

theorem metricPicker_exclusive:
  "metricFlags (clearMetricsCommand p) = [False, False, False, False, False, False]
   \<and> map (\<lambda>opt. metricFlags (onChange opt p)) (metricPicker c)
       = [[True, False, False, False, False, False],
          [False, False, True, False, False, False],
          [False, False, False, True, False, False],
          [False, True, False, False, False, False],
          [False, False, False, False, True, False],
          [False, False, False, False, False, True]]
   \<and> list_all (\<lambda>opt. countTrue (metricFlags (onChange opt p)) = 1) (metricPicker c)"
  by (simp add: metricPicker_def metricPicker_options_def metricPicker_optionsColumn2_def
      metricFlags_def clearMetricsCommand_def countTrue_def)

subsection \<open>Chart title\<close>

lemma chartTitle_cong:
  assumes "sameTitleSettings p q"
  shows "chartTitle p = chartTitle q"
proof -
  from assms have eqs: "casesMetric p = casesMetric q" "testsMetric p = testsMetric q"
    "deathsMetric p = deathsMetric q" "cfrMetric p = cfrMetric q"
    "testsPerCaseMetric p = testsPerCaseMetric q" "positiveTestRate p = positiveTestRate q"
    "dailyFreq p = dailyFreq q" "totalFreq p = totalFreq q" "perCapita p = perCapita q"
    by (simp_all add: sameTitleSettings_def metricFlags_def)
  show ?thesis
    unfolding chartTitle_def perCapitaTitle_def perCapitaDivisor_def
    by (simp only: eqs)
qed

lemma chartTitle_cases_daily:
  assumes "metricFlags p = [True, False, False, False, False, False]" "dailyFreq p"
  shows "chartTitle p = ''Daily new confirmed COVID-19 cases'' @ perCapitaTitle p"
proof -
  from assms(1) have "casesMetric p" "\<not> testsMetric p" "\<not> deathsMetric p" "\<not> cfrMetric p"
    "\<not> testsPerCaseMetric p" "\<not> positiveTestRate p"
    by (simp_all add: metricFlags_def)
  with assms(2) show ?thesis
    by (simp add: chartTitle_def)
qed

lemma chartTitle_cfr:
  assumes "cfrMetric p"
  shows "chartTitle p
           = ''Case fatality rate of the ongoing COVID-19 pandemic'' @ perCapitaTitle p"
  using assms by (simp add: chartTitle_def)

text \<open>Every title the chart can have, spelled out.\<close>

lemma chartTitle_table:
  "chartTitle p =
     (if cfrMetric p then ''Case fatality rate of the ongoing COVID-19 pandemic''
      else if positiveTestRate p then
        (if dailyFreq p then ''The share of daily COVID-19 tests that are positive''
         else ''The share of COVID-19 tests that are positive'')
      else if testsPerCaseMetric p then
        (if totalFreq p then ''Cumulative tests conducted per confirmed case of COVID-19''
         else ''Tests conducted per confirmed case of COVID-19'')
      else if testsMetric p then
        (if dailyFreq p then ''Daily new COVID-19 tests'' else ''Cumulative COVID-19 tests'')
      else if deathsMetric p then
        (if dailyFreq p then ''Daily new confirmed COVID-19 deaths''
         else ''Cumulative confirmed COVID-19 deaths'')
      else if casesMetric p then
        (if dailyFreq p then ''Daily new confirmed COVID-19 cases''
         else ''Cumulative confirmed COVID-19 cases'')
      else '''')
     @ (if perCapita p then
          (if testsMetric p then '' per 1,000 people'' else '' per million people'')
        else '' '')"
  by (simp add: chartTitle_def perCapitaTitle_def perCapitaOptions_def perCapitaDivisor_def
      Let_def)

lemma single_metric_cases:
  assumes "countTrue (metricFlags p) = 1"
  shows "metricFlags p = [True, False, False, False, False, False]
     \<or> metricFlags p = [False, True, False, False, False, False]
     \<or> metricFlags p = [False, False, True, False, False, False]
     \<or> metricFlags p = [False, False, False, True, False, False]
     \<or> metricFlags p = [False, False, False, False, True, False]
     \<or> metricFlags p = [False, False, False, False, False, True]"
  using assms by (simp add: metricFlags_def countTrue_def split: if_splits)

text \<open>The titles of a single selected metric, and that no two metrics share one.\<close>

lemma title_cases:
  "metricFlags p = [True, False, False, False, False, False] \<Longrightarrow>
     chartTitle p \<in> {''Daily new confirmed COVID-19 cases '',
       ''Daily new confirmed COVID-19 cases per million people'',
       ''Cumulative confirmed COVID-19 cases '',
       ''Cumulative confirmed COVID-19 cases per million people''}"
  by (simp add: chartTitle_table metricFlags_def)

lemma title_tests:
  "metricFlags p = [False, True, False, False, False, False] \<Longrightarrow>
     chartTitle p \<in> {''Daily new COVID-19 tests '',
       ''Daily new COVID-19 tests per 1,000 people'',
       ''Cumulative COVID-19 tests '',
       ''Cumulative COVID-19 tests per 1,000 people''}"
  by (simp add: chartTitle_table metricFlags_def)

lemma title_deaths:
  "metricFlags p = [False, False, True, False, False, False] \<Longrightarrow>
     chartTitle p \<in> {''Daily new confirmed COVID-19 deaths '',
       ''Daily new confirmed COVID-19 deaths per million people'',
       ''Cumulative confirmed COVID-19 deaths '',
       ''Cumulative confirmed COVID-19 deaths per million people''}"
  by (simp add: chartTitle_table metricFlags_def)

lemma title_cfr:
  "metricFlags p = [False, False, False, True, False, False] \<Longrightarrow>
     chartTitle p \<in> {''Case fatality rate of the ongoing COVID-19 pandemic '',
       ''Case fatality rate of the ongoing COVID-19 pandemic per million people''}"
  by (simp add: chartTitle_table metricFlags_def)

lemma title_tests_per_case:
  "metricFlags p = [False, False, False, False, True, False] \<Longrightarrow>
     chartTitle p \<in> {''Cumulative tests conducted per confirmed case of COVID-19 '',
       ''Cumulative tests conducted per confirmed case of COVID-19 per million people'',
       ''Tests conducted per confirmed case of COVID-19 '',
       ''Tests conducted per confirmed case of COVID-19 per million people''}"
  by (simp add: chartTitle_table metricFlags_def)

lemma title_positive_rate:
  "metricFlags p = [False, False, False, False, False, True] \<Longrightarrow>
     chartTitle p \<in> {''The share of daily COVID-19 tests that are positive '',
       ''The share of daily COVID-19 tests that are positive per million people'',
       ''The share of COVID-19 tests that are positive '',
       ''The share of COVID-19 tests that are positive per million people''}"
  by (simp add: chartTitle_table metricFlags_def)

lemma titles_differ:
  assumes "countTrue (metricFlags p) = 1" "countTrue (metricFlags q) = 1"
    and "metricFlags p \<noteq> metricFlags q"
  shows "chartTitle p \<noteq> chartTitle q"
proof
  assume eq: "chartTitle p = chartTitle q"
  from single_metric_cases [OF assms(1)] single_metric_cases [OF assms(2)] assms(3)
  show False
    apply (elim disjE)
    apply (simp_all only: refl not_True_eq_False)
    apply (use eq in \<open>auto dest!: title_cases title_tests title_deaths title_cfr
        title_tests_per_case title_positive_rate\<close>)
    done
qed

text \<open>
  Claim C5. The chart title is the string determined by the metric flags, the two
  frequency flags and the per-capita flag: two parameter states that agree on these have
  the same title, whatever their other fields. The title is the text of the metric (of
  the first set flag among case fatality rate, share of positive tests, tests per case,
  tests, deaths, cases), which for every metric but the case fatality rate depends on
  the frequency, followed by the per-capita suffix: "per 1,000 people" for tests, "per
  million people" otherwise, and a single space when per capita is off. With only
  \<^verbatim>\<open>casesMetric\<close> set and \<^verbatim>\<open>dailyFreq\<close>, the title is "Daily new confirmed
  COVID-19 cases" and the suffix; with \<^verbatim>\<open>cfrMetric\<close> set it is "Case fatality rate of
  the ongoing COVID-19 pandemic" and the suffix, whatever the frequency. Two states with
  one metric each and not the same metric have different titles, so selecting another
  metric changes the title.
\<close>

theorem chartTitle_determined:
  "(sameTitleSettings p q \<longrightarrow> chartTitle p = chartTitle q)
   \<and> (metricFlags p = [True, False, False, False, False, False] \<and> dailyFreq p \<longrightarrow>
        chartTitle p = ''Daily new confirmed COVID-19 cases'' @ perCapitaTitle p)
   \<and> (cfrMetric p \<longrightarrow>
        chartTitle p
          = ''Case fatality rate of the ongoing COVID-19 pandemic'' @ perCapitaTitle p)
   \<and> chartTitle p =
       (if cfrMetric p then ''Case fatality rate of the ongoing COVID-19 pandemic''
        else if positiveTestRate p then
          (if dailyFreq p then ''The share of daily COVID-19 tests that are positive''
           else ''The share of COVID-19 tests that are positive'')
        else if testsPerCaseMetric p then
          (if totalFreq p then ''Cumulative tests conducted per confirmed case of COVID-19''
           else ''Tests conducted per confirmed case of COVID-19'')
        else if testsMetric p then
          (if dailyFreq p then ''Daily new COVID-19 tests'' else ''Cumulative COVID-19 tests'')
        else if deathsMetric p then
          (if dailyFreq p then ''Daily new confirmed COVID-19 deaths''
           else ''Cumulative confirmed COVID-19 deaths'')
        else if casesMetric p then
          (if dailyFreq p then ''Daily new confirmed COVID-19 cases''
           else ''Cumulative confirmed COVID-19 cases'')
        else '''')
       @ (if perCapita p then
            (if testsMetric p then '' per 1,000 people'' else '' per million people'')
          else '' '')
   \<and> (countTrue (metricFlags p) = 1 \<and> countTrue (metricFlags q) = 1
        \<and> metricFlags p \<noteq> metricFlags q \<longrightarrow> chartTitle p \<noteq> chartTitle q)"
  using chartTitle_cong [of p q] chartTitle_cases_daily [of p] chartTitle_cfr [of p]
    chartTitle_table [of p] titles_differ [of p q]
  by blast

theorem chartTitle_determined_witness:
  "sameTitleSettings
      \<lparr>casesMetric = True, testsMetric = False, deathsMetric = False, cfrMetric = False,
       testsPerCaseMetric = False, positiveTestRate = False, totalFreq = False,
       dailyFreq = True, smoothing = 7, perCapita = True, aligned = False,
       hideControls = False, selectedCountryCodes = {''USA''}\<rparr>
      \<lparr>casesMetric = True, testsMetric = False, deathsMetric = False, cfrMetric = False,
       testsPerCaseMetric = False, positiveTestRate = False, totalFreq = False,
       dailyFreq = True, smoothing = 0, perCapita = True, aligned = True,
       hideControls = True, selectedCountryCodes = {}\<rparr>
   \<and> chartTitle
      \<lparr>casesMetric = True, testsMetric = False, deathsMetric = False, cfrMetric = False,
       testsPerCaseMetric = False, positiveTestRate = False, totalFreq = False,
       dailyFreq = True, smoothing = 7, perCapita = True, aligned = False,
       hideControls = False, selectedCountryCodes = {''USA''}\<rparr>
     = chartTitle
      \<lparr>casesMetric = True, testsMetric = False, deathsMetric = False, cfrMetric = False,
       testsPerCaseMetric = False, positiveTestRate = False, totalFreq = False,
       dailyFreq = True, smoothing = 0, perCapita = True, aligned = True,
       hideControls = True, selectedCountryCodes = {}\<rparr>
   \<and> chartTitle
      \<lparr>casesMetric = True, testsMetric = False, deathsMetric = False, cfrMetric = False,
       testsPerCaseMetric = False, positiveTestRate = False, totalFreq = False,
       dailyFreq = True, smoothing = 7, perCapita = True, aligned = False,
       hideControls = False, selectedCountryCodes = {''USA''}\<rparr>
     = ''Daily new confirmed COVID-19 cases per million people''
   \<and> chartTitle
      \<lparr>casesMetric = False, testsMetric = False, deathsMetric = False, cfrMetric = True,
       testsPerCaseMetric = False, positiveTestRate = False, totalFreq = True,
       dailyFreq = False, smoothing = 0, perCapita = False, aligned = False,
       hideControls = False, selectedCountryCodes = {}\<rparr>
     = ''Case fatality rate of the ongoing COVID-19 pandemic ''
   \<and> chartTitle
      \<lparr>casesMetric = True, testsMetric = False, deathsMetric = False, cfrMetric = False,
       testsPerCaseMetric = False, positiveTestRate = False, totalFreq = False,
       dailyFreq = True, smoothing = 7, perCapita = True, aligned = False,
       hideControls = False, selectedCountryCodes = {''USA''}\<rparr>
     \<noteq> chartTitle
      \<lparr>casesMetric = False, testsMetric = False, deathsMetric = False, cfrMetric = True,
       testsPerCaseMetric = False, positiveTestRate = False, totalFreq = True,
       dailyFreq = False, smoothing = 0, perCapita = False, aligned = False,
       hideControls = False, selectedCountryCodes = {}\<rparr>"
  (is "sameTitleSettings ?P ?Q \<and> _ \<and> _ \<and> chartTitle ?R = _ \<and> _")
proof -
  have s: "sameTitleSettings ?P ?Q"
    by (simp add: sameTitleSettings_def metricFlags_def)
  have f: "metricFlags ?P = [True, False, False, False, False, False] \<and> dailyFreq ?P"
    by (simp add: metricFlags_def)
  have c: "cfrMetric ?R"
    by simp
  have n: "countTrue (metricFlags ?P) = 1 \<and> countTrue (metricFlags ?R) = 1
      \<and> metricFlags ?P \<noteq> metricFlags ?R"
    by (simp add: metricFlags_def countTrue_def)
  from chartTitle_determined [of ?P ?Q] s f
  have a: "chartTitle ?P = chartTitle ?Q"
    and b: "chartTitle ?P = ''Daily new confirmed COVID-19 cases'' @ perCapitaTitle ?P"
    by blast+
  from chartTitle_determined [of ?R ?R] c
  have d: "chartTitle ?R
      = ''Case fatality rate of the ongoing COVID-19 pandemic'' @ perCapitaTitle ?R"
    by blast
  from chartTitle_determined [of ?P ?R] n
  have g: "chartTitle ?P \<noteq> chartTitle ?R"
    by blast
  have e: "perCapitaTitle ?P = '' per million people''" "perCapitaTitle ?R = '' ''"
    by (simp_all add: perCapitaTitle_def perCapitaOptions_def perCapitaDivisor_def)
  show ?thesis
    using s a b d g unfolding e by simp
qed

subsection \<open>The id of the y variable\<close>

lemma initVariableAndGetId_fst:
  "fst (initVariableAndGetId env c k a d None e)
     = buildCovidVariableId env k (if perCapita c then perCapitaDivisor c else 1)
         (smoothing c) d"
  by (simp add: initVariableAndGetId_def Let_def)

lemma initVariableAndGetId_console:
  "console (snd (initVariableAndGetId env c k a d pc e)) = console e"
  by (simp add: initVariableAndGetId_def Let_def)

lemma initVariableAndGetId_built:
  "variables (snd (initVariableAndGetId env c k a d pc e))
     (fst (initVariableAndGetId env c k a d pc e)) \<noteq> None"
  by (simp add: initVariableAndGetId_def Let_def)

lemma addNewCasesSmoothed_console: "console (addNewCasesSmoothed e) = console e"
  by (simp add: addNewCasesSmoothed_def)

lemma yVariableId_no_metric:
  "\<not> anyMetric params \<Longrightarrow>
     yVariableId env params e
       = (0, e\<lparr>console := console e @ [''Error: no variable id generated.'']\<rparr>)"
  by (simp add: anyMetric_def yVariableId_def)

lemma yVariableId_shape:
  assumes "anyMetric params" "dailyFreq params \<or> totalFreq params"
  shows "\<exists>k a d e'. yVariableId env params e = initVariableAndGetId env params k a d None e'
           \<and> console e' = console e"
  using assms unfolding yVariableId_def anyMetric_def
  apply (simp split: if_split)
  apply (intro conjI impI)
  apply (blast intro: addNewCasesSmoothed_console)+
  done

lemma yVariableId_id:
  assumes "anyMetric params" "dailyFreq params \<or> totalFreq params"
  shows "fst (yVariableId env params e)
     = buildCovidVariableId env
         (if testsMetric params then kind_tests
          else if casesMetric params then kind_cases
          else if deathsMetric params then kind_deaths
          else if cfrMetric params then kind_case_fatality_rate
          else if testsPerCaseMetric params then kind_tests_per_case
          else kind_positive_test_rate)
         (if perCapita params then perCapitaDivisor params else 1) (smoothing params)
         (dailyFreq params)"
  using assms unfolding yVariableId_def anyMetric_def
  by (simp add: initVariableAndGetId_fst split: if_split) blast

text \<open>
  Claim C4, as the code has it. With none of the six metric flags set,
  \<^verbatim>\<open>yVariableId\<close> leaves the variable table as it is, logs "Error: no variable id
  generated." and returns 0. With a metric flag set and at least one of
  \<^verbatim>\<open>dailyFreq\<close> and \<^verbatim>\<open>totalFreq\<close> set, it returns an id made by
  \<^verbatim>\<open>buildCovidVariableId\<close> from the per-capita divisor and the smoothing, the variable
  table has an entry for that id afterwards, and nothing is logged; that id is not 0
  when \<^verbatim>\<open>buildCovidVariableId\<close> never yields 0. The id is made for the column of the
  first metric set, in the order tests, cases, deaths, case fatality rate, tests per
  case, share of positive tests, and as a daily variable exactly when \<^verbatim>\<open>dailyFreq\<close>
  is set.
\<close>

theorem yVariableId_cases:
  "(\<not> anyMetric params \<longrightarrow>
      yVariableId env params e
        = (0, e\<lparr>console := console e @ [''Error: no variable id generated.'']\<rparr>))
   \<and> (anyMetric params \<and> (dailyFreq params \<or> totalFreq params) \<longrightarrow>
        (\<exists>k d. fst (yVariableId env params e)
            = buildCovidVariableId env k
                (if perCapita params then perCapitaDivisor params else 1) (smoothing params) d)
        \<and> variables (snd (yVariableId env params e)) (fst (yVariableId env params e)) \<noteq> None
        \<and> console (snd (yVariableId env params e)) = console e)
   \<and> (anyMetric params \<and> (dailyFreq params \<or> totalFreq params)
        \<and> (\<forall>k pc s d. buildCovidVariableId env k pc s d \<noteq> 0) \<longrightarrow>
        fst (yVariableId env params e) \<noteq> 0)
   \<and> (anyMetric params \<and> (dailyFreq params \<or> totalFreq params) \<longrightarrow>
        fst (yVariableId env params e)
          = buildCovidVariableId env
              (if testsMetric params then kind_tests
               else if casesMetric params then kind_cases
               else if deathsMetric params then kind_deaths
               else if cfrMetric params then kind_case_fatality_rate
               else if testsPerCaseMetric params then kind_tests_per_case
               else kind_positive_test_rate)
              (if perCapita params then perCapitaDivisor params else 1) (smoothing params)
              (dailyFreq params))"
proof -
  have none: "yVariableId env params e
      = (0, e\<lparr>console := console e @ [''Error: no variable id generated.'']\<rparr>)"
    if "\<not> anyMetric params"
    using that by (rule yVariableId_no_metric)
  have some: "(\<exists>k d. fst (yVariableId env params e)
            = buildCovidVariableId env k
                (if perCapita params then perCapitaDivisor params else 1) (smoothing params) d)
        \<and> variables (snd (yVariableId env params e)) (fst (yVariableId env params e)) \<noteq> None
        \<and> console (snd (yVariableId env params e)) = console e"
    if h: "anyMetric params \<and> (dailyFreq params \<or> totalFreq params)"
  proof -
    from h obtain k a d e' where
      eq: "yVariableId env params e = initVariableAndGetId env params k a d None e'"
      and con: "console e' = console e"
      using yVariableId_shape by blast
    show ?thesis
    proof (intro conjI)
      show "\<exists>k d. fst (yVariableId env params e)
            = buildCovidVariableId env k
                (if perCapita params then perCapitaDivisor params else 1) (smoothing params) d"
        unfolding eq using initVariableAndGetId_fst by blast
      show "variables (snd (yVariableId env params e)) (fst (yVariableId env params e)) \<noteq> None"
        unfolding eq by (rule initVariableAndGetId_built)
      show "console (snd (yVariableId env params e)) = console e"
        unfolding eq by (simp only: initVariableAndGetId_console con)
    qed
  qed
  have nonzero: "fst (yVariableId env params e) \<noteq> 0"
    if h: "anyMetric params \<and> (dailyFreq params \<or> totalFreq params)
        \<and> (\<forall>k pc s d. buildCovidVariableId env k pc s d \<noteq> 0)"
  proof -
    from h obtain k a d e' where
      eq: "yVariableId env params e = initVariableAndGetId env params k a d None e'"
      using yVariableId_shape by blast
    from h show ?thesis
      unfolding eq by (simp add: initVariableAndGetId_fst)
  qed
  have which: "fst (yVariableId env params e)
          = buildCovidVariableId env
              (if testsMetric params then kind_tests
               else if casesMetric params then kind_cases
               else if deathsMetric params then kind_deaths
               else if cfrMetric params then kind_case_fatality_rate
               else if testsPerCaseMetric params then kind_tests_per_case
               else kind_positive_test_rate)
              (if perCapita params then perCapitaDivisor params else 1) (smoothing params)
              (dailyFreq params)"
    if h: "anyMetric params \<and> (dailyFreq params \<or> totalFreq params)"
    using h yVariableId_id by blast
  from none some nonzero which show ?thesis by blast
qed

theorem yVariableId_cases_witness:
  "yVariableId \<lparr>buildCovidVariableId = (\<lambda>k pc s d. 1145), lastUpdated = ''today''\<rparr>
      \<lparr>casesMetric = False, testsMetric = False, deathsMetric = False, cfrMetric = False,
       testsPerCaseMetric = False, positiveTestRate = False, totalFreq = True,
       dailyFreq = False, smoothing = 0, perCapita = False, aligned = False,
       hideControls = False, selectedCountryCodes = {}\<rparr>
      \<lparr>variables = initial_variables, smoothedAdded = False, console = []\<rparr>
     = (0, \<lparr>variables = initial_variables, smoothedAdded = False,
            console = [''Error: no variable id generated.'']\<rparr>)
   \<and> fst (yVariableId \<lparr>buildCovidVariableId = (\<lambda>k pc s d. 1145), lastUpdated = ''today''\<rparr>
      \<lparr>casesMetric = False, testsMetric = False, deathsMetric = True, cfrMetric = False,
       testsPerCaseMetric = False, positiveTestRate = False, totalFreq = True,
       dailyFreq = False, smoothing = 0, perCapita = False, aligned = False,
       hideControls = False, selectedCountryCodes = {}\<rparr>
      \<lparr>variables = initial_variables, smoothedAdded = False, console = []\<rparr>) \<noteq> 0
   \<and> console (snd (yVariableId
      \<lparr>buildCovidVariableId = (\<lambda>k pc s d. 1145), lastUpdated = ''today''\<rparr>
      \<lparr>casesMetric = False, testsMetric = False, deathsMetric = True, cfrMetric = False,
       testsPerCaseMetric = False, positiveTestRate = False, totalFreq = True,
       dailyFreq = False, smoothing = 0, perCapita = False, aligned = False,
       hideControls = False, selectedCountryCodes = {}\<rparr>
      \<lparr>variables = initial_variables, smoothedAdded = False, console = []\<rparr>)) = []"
  using yVariableId_cases [of
      "\<lparr>casesMetric = False, testsMetric = False, deathsMetric = False, cfrMetric = False,
       testsPerCaseMetric = False, positiveTestRate = False, totalFreq = True,
       dailyFreq = False, smoothing = 0, perCapita = False, aligned = False,
       hideControls = False, selectedCountryCodes = {}\<rparr>"
      "\<lparr>buildCovidVariableId = (\<lambda>k pc s d. 1145), lastUpdated = ''today''\<rparr>"
      "\<lparr>variables = initial_variables, smoothedAdded = False, console = []\<rparr>"]
    yVariableId_cases [of
      "\<lparr>casesMetric = False, testsMetric = False, deathsMetric = True, cfrMetric = False,
       testsPerCaseMetric = False, positiveTestRate = False, totalFreq = True,
       dailyFreq = False, smoothing = 0, perCapita = False, aligned = False,
       hideControls = False, selectedCountryCodes = {}\<rparr>"
      "\<lparr>buildCovidVariableId = (\<lambda>k pc s d. 1145), lastUpdated = ''today''\<rparr>"
      "\<lparr>variables = initial_variables, smoothedAdded = False, console = []\<rparr>"]
  by (simp add: anyMetric_def)

text \<open>
  The claim as the specification words it fails where a metric flag is set and neither
  frequency flag is: with \<^verbatim>\<open>casesMetric\<close> alone, \<^verbatim>\<open>yVariableId\<close> logs the error and
  returns 0.
\<close>

theorem yVariableId_metric_without_frequency:
  "anyMetric
      \<lparr>casesMetric = True, testsMetric = False, deathsMetric = False, cfrMetric = False,
       testsPerCaseMetric = False, positiveTestRate = False, totalFreq = False,
       dailyFreq = False, smoothing = 0, perCapita = False, aligned = False,
       hideControls = False, selectedCountryCodes = {}\<rparr>
   \<and> yVariableId \<lparr>buildCovidVariableId = (\<lambda>k pc s d. 1145), lastUpdated = ''today''\<rparr>
      \<lparr>casesMetric = True, testsMetric = False, deathsMetric = False, cfrMetric = False,
       testsPerCaseMetric = False, positiveTestRate = False, totalFreq = False,
       dailyFreq = False, smoothing = 0, perCapita = False, aligned = False,
       hideControls = False, selectedCountryCodes = {}\<rparr>
      \<lparr>variables = initial_variables, smoothedAdded = False, console = []\<rparr>
     = (0, \<lparr>variables = initial_variables, smoothedAdded = False,
            console = [''Error: no variable id generated.'']\<rparr>)"
  by (simp add: anyMetric_def yVariableId_def)

section \<open>Properties of the data table\<close>

subsection \<open>Derived sort state\<close>

lemma at_index_first: "at_index ks 0 = (case ks of [] \<Rightarrow> None | k # _ \<Rightarrow> Some k)"
  by (cases ks) (simp_all add: at_index_def)

lemma sortState_entity:
  "min (dimIndex stored) (int (length (dimensions t)) - 1) = ENTITY_DIM_INDEX \<Longrightarrow>
   sortState stored t
     = Inr \<lparr>dimIndex = ENTITY_DIM_INDEX, columnKey = columnKey stored, order = order stored\<rparr>"
  by (simp add: sortState_def Let_def)

lemma sortState_dimension:
  assumes "min (dimIndex stored) (int (length (dimensions t)) - 1) = i"
    and "i \<noteq> ENTITY_DIM_INDEX"
    and "at_index (dimensionsWithValues t) i = Some d"
  shows "sortState stored t = Inr \<lparr>dimIndex = i,
           columnKey = (if (case columnKey stored of
                              None \<Rightarrow> True
                            | Some k \<Rightarrow> k \<notin> set (map key (columns d)))
                        then at_index (map key (columns d)) 0 else columnKey stored),
           order = order stored\<rparr>"
  using assms by (simp add: sortState_def Let_def)

lemma sortState_dimIndex:
  "sortState stored t = Inr cur \<Longrightarrow>
     dimIndex cur = min (dimIndex stored) (int (length (dimensions t)) - 1)
     \<and> order cur = order stored"
  by (auto simp add: sortState_def Let_def split: if_splits option.splits)

text \<open>Deriving the sort state from an already derived one changes nothing.\<close>

lemma sortState_idem:
  assumes "sortState stored t = Inr cur"
  shows "sortState (cur\<lparr>order := ord\<rparr>) t = Inr (cur\<lparr>order := ord\<rparr>)"
proof -
  let ?i = "min (dimIndex stored) (int (length (dimensions t)) - 1)"
  have i: "dimIndex cur = ?i"
    using assms sortState_dimIndex by blast
  have m: "min (dimIndex (cur\<lparr>order := ord\<rparr>)) (int (length (dimensions t)) - 1) = ?i"
    by (simp add: i)
  show ?thesis
  proof (cases "?i = ENTITY_DIM_INDEX")
    case True
    with m i show ?thesis
      by (simp add: sortState_def Let_def)
  next
    case False
    with assms obtain d where at: "at_index (dimensionsWithValues t) ?i = Some d"
      by (auto simp add: sortState_def Let_def split: option.splits)
    let ?ks = "map key (columns d)"
    from assms False at have ck: "columnKey cur =
        (if (case columnKey stored of None \<Rightarrow> True | Some k \<Rightarrow> k \<notin> set ?ks)
         then at_index ?ks 0 else columnKey stored)"
      by (auto simp add: sortState_def Let_def split: if_splits)
    have keep: "(case columnKey cur of None \<Rightarrow> True | Some k \<Rightarrow> k \<notin> set ?ks)
        \<longrightarrow> columnKey cur = at_index ?ks 0"
      unfolding ck by (cases "columns d") (auto simp add: at_index_first split: option.splits)
    have "sortState (cur\<lparr>order := ord\<rparr>) t
        = Inr \<lparr>dimIndex = ?i, columnKey = columnKey cur, order = ord\<rparr>"
      using False at keep m
      by (simp add: sortState_def Let_def)
    then show ?thesis
      using i by simp
  qed
qed

text \<open>
  Claim C3. The stored sort state starts as \<^verbatim>\<open>DEFAULT_SORT_STATE\<close> and is written only
  by \<^verbatim>\<open>updateSort\<close>, which the header handlers call with the entity index or the index
  of a displayed dimension: its dimension index is never below the entity index \<open>-1\<close>.
  For such a stored state, and a transform with an entry of \<^verbatim>\<open>dimensionsWithValues\<close>
  for each of its dimensions, the derived sort state exists; its dimension index is the
  stored one clamped to the number of dimensions minus one; its order is the stored one;
  its column key is the first available column of that dimension (undefined when it has
  none) if the clamped index is not the entity index and the stored key is undefined or
  not available, and the stored key otherwise.
\<close>

theorem sortState_fallback:
  assumes "ENTITY_DIM_INDEX \<le> dimIndex stored"
    and "length (dimensions t) \<le> length (dimensionsWithValues t)"
  shows "\<exists>s. sortState stored t = Inr s
     \<and> dimIndex s = min (dimIndex stored) (int (length (dimensions t)) - 1)
     \<and> order s = order stored
     \<and> columnKey s =
         (if dimIndex s \<noteq> ENTITY_DIM_INDEX
             \<and> (case columnKey stored of
                   None \<Rightarrow> True
                 | Some k \<Rightarrow>
                     k \<notin> set (map key (columns (dimensionsWithValues t ! nat (dimIndex s)))))
          then (case map key (columns (dimensionsWithValues t ! nat (dimIndex s))) of
                  [] \<Rightarrow> None
                | k # _ \<Rightarrow> Some k)
          else columnKey stored)"
proof (cases "min (dimIndex stored) (int (length (dimensions t)) - 1) = ENTITY_DIM_INDEX")
  case True
  then show ?thesis by (simp add: sortState_entity)
next
  case False
  define i where "i = min (dimIndex stored) (int (length (dimensions t)) - 1)"
  have "0 \<le> i" "i < int (length (dimensionsWithValues t))"
    using False assms by (auto simp add: i_def ENTITY_DIM_INDEX_def min_def split: if_splits)
  then have at: "at_index (dimensionsWithValues t) i = Some (dimensionsWithValues t ! nat i)"
    by (simp add: at_index_def)
  let ?ks = "map key (columns (dimensionsWithValues t ! nat i))"
  let ?fall = "case columnKey stored of None \<Rightarrow> True | Some k \<Rightarrow> k \<notin> set ?ks"
  have ne: "i \<noteq> ENTITY_DIM_INDEX"
    using False by (simp add: i_def)
  have eq: "sortState stored t = Inr \<lparr>dimIndex = i,
      columnKey = (if ?fall then at_index ?ks 0 else columnKey stored), order = order stored\<rparr>"
    using sortState_dimension [OF i_def [symmetric] ne at] .
  show ?thesis
  proof (cases ?fall)
    case True
    with eq ne show ?thesis
      unfolding i_def [symmetric] by (simp add: at_index_first cong: option.case_cong)
  next
    case False
    with eq ne show ?thesis
      unfolding i_def [symmetric] by (simp cong: option.case_cong)
  qed
qed

theorem sortState_fallback_witness:
  "ENTITY_DIM_INDEX \<le> dimIndex \<lparr>dimIndex = 5, columnKey = Some key_single, order = desc\<rparr>
   \<and> length (dimensions
        \<lparr>dimensions = [''y'', ''x''],
         dimensionsWithValues =
           [\<lparr>columns = [\<lparr>key = key_single, sortable = True\<rparr>]\<rparr>,
            \<lparr>columns = [\<lparr>key = key_start, sortable = True\<rparr>,
                        \<lparr>key = key_end, sortable = True\<rparr>]\<rparr>],
         displayRows = []\<rparr>) \<le> 2
   \<and> sortState \<lparr>dimIndex = 5, columnKey = Some key_single, order = desc\<rparr>
        \<lparr>dimensions = [''y'', ''x''],
         dimensionsWithValues =
           [\<lparr>columns = [\<lparr>key = key_single, sortable = True\<rparr>]\<rparr>,
            \<lparr>columns = [\<lparr>key = key_start, sortable = True\<rparr>,
                        \<lparr>key = key_end, sortable = True\<rparr>]\<rparr>],
         displayRows = []\<rparr>
     = Inr \<lparr>dimIndex = 1, columnKey = Some key_start, order = desc\<rparr>"
  (is "_ \<le> dimIndex ?S \<and> length (dimensions ?T) \<le> _ \<and> _")
proof -
  have h1: "ENTITY_DIM_INDEX \<le> dimIndex ?S"
    by (simp add: ENTITY_DIM_INDEX_def)
  have h2: "length (dimensions ?T) \<le> length (dimensionsWithValues ?T)"
    by simp
  from sortState_fallback [OF h1 h2] obtain s where
    "sortState ?S ?T = Inr s" "dimIndex s = 1" "order s = desc" "columnKey s = Some key_start"
    by (auto simp add: ENTITY_DIM_INDEX_def)
  then show ?thesis
    using h1 by simp
qed

subsection \<open>Changing the sort column\<close>

text \<open>
  Claim C8. Whatever the current (derived) sort state, \<^verbatim>\<open>updateSort\<close> called with its
  dimension index and column key stores the same column with the order inverted
  (ascending becomes descending and descending ascending), and the sort state derived
  from the stored one is then that column with the inverted order; called with any other
  pair of dimension index and column key, it stores that pair with ascending order.
\<close>

theorem updateSort_toggle:
  assumes "sortState stored t = Inr cur"
  shows "updateSort (dimIndex cur) (columnKey cur) stored t
       = Inr \<lparr>dimIndex = dimIndex cur, columnKey = columnKey cur,
               order = inverseSortOrder (order cur)\<rparr>
     \<and> inverseSortOrder asc = desc \<and> inverseSortOrder desc = asc
     \<and> sortState \<lparr>dimIndex = dimIndex cur, columnKey = columnKey cur,
                    order = inverseSortOrder (order cur)\<rparr> t
       = Inr \<lparr>dimIndex = dimIndex cur, columnKey = columnKey cur,
               order = inverseSortOrder (order cur)\<rparr>
     \<and> (\<forall>d k. (d, k) \<noteq> (dimIndex cur, columnKey cur) \<longrightarrow>
          updateSort d k stored t = Inr \<lparr>dimIndex = d, columnKey = k, order = asc\<rparr>)"
proof -
  have a: "updateSort (dimIndex cur) (columnKey cur) stored t
       = Inr \<lparr>dimIndex = dimIndex cur, columnKey = columnKey cur,
               order = inverseSortOrder (order cur)\<rparr>"
    using assms by (simp add: updateSort_def)
  have b: "inverseSortOrder asc = desc \<and> inverseSortOrder desc = asc"
    by (simp add: inverseSortOrder_def)
  have "cur\<lparr>order := inverseSortOrder (order cur)\<rparr>
      = \<lparr>dimIndex = dimIndex cur, columnKey = columnKey cur,
               order = inverseSortOrder (order cur)\<rparr>"
    by simp
  with sortState_idem [OF assms, of "inverseSortOrder (order cur)"]
  have c: "sortState \<lparr>dimIndex = dimIndex cur, columnKey = columnKey cur,
                    order = inverseSortOrder (order cur)\<rparr> t
       = Inr \<lparr>dimIndex = dimIndex cur, columnKey = columnKey cur,
               order = inverseSortOrder (order cur)\<rparr>"
    by simp
  have d: "\<forall>d k. (d, k) \<noteq> (dimIndex cur, columnKey cur) \<longrightarrow>
          updateSort d k stored t = Inr \<lparr>dimIndex = d, columnKey = k, order = asc\<rparr>"
    using assms by (auto simp add: updateSort_def)
  from a b c d show ?thesis by blast
qed

theorem updateSort_toggle_witness:
  "sortState \<lparr>dimIndex = 0, columnKey = None, order = asc\<rparr>
      \<lparr>dimensions = [''y''],
       dimensionsWithValues = [\<lparr>columns = [\<lparr>key = key_start, sortable = True\<rparr>,
                                            \<lparr>key = key_end, sortable = True\<rparr>]\<rparr>],
       displayRows = []\<rparr>
     = Inr \<lparr>dimIndex = 0, columnKey = Some key_start, order = asc\<rparr>
   \<and> updateSort 0 (Some key_start) \<lparr>dimIndex = 0, columnKey = None, order = asc\<rparr>
      \<lparr>dimensions = [''y''],
       dimensionsWithValues = [\<lparr>columns = [\<lparr>key = key_start, sortable = True\<rparr>,
                                            \<lparr>key = key_end, sortable = True\<rparr>]\<rparr>],
       displayRows = []\<rparr>
     = Inr \<lparr>dimIndex = 0, columnKey = Some key_start, order = desc\<rparr>
   \<and> updateSort 0 (Some key_end) \<lparr>dimIndex = 0, columnKey = None, order = asc\<rparr>
      \<lparr>dimensions = [''y''],
       dimensionsWithValues = [\<lparr>columns = [\<lparr>key = key_start, sortable = True\<rparr>,
                                            \<lparr>key = key_end, sortable = True\<rparr>]\<rparr>],
       displayRows = []\<rparr>
     = Inr \<lparr>dimIndex = 0, columnKey = Some key_end, order = asc\<rparr>"
  (is "sortState ?S ?T = Inr ?C \<and> _ \<and> _")
proof -
  have h: "sortState ?S ?T = Inr ?C"
    by (simp add: sortState_def ENTITY_DIM_INDEX_def at_index_def)
  from updateSort_toggle [OF h] show ?thesis
    using h by (simp add: inverseSortOrder_def)
qed

subsection \<open>Displayed rows\<close>

text \<open>Sorting keeps the rows: nothing is added, dropped or changed.\<close>

lemma mset_insertBy: "mset (insertBy before f x ys) = add_mset x (mset ys)"
  by (induction ys) simp_all

lemma set_insertBy: "set (insertBy before f x ys) = insert x (set ys)"
  by (induction ys) auto

lemma mset_orderBy: "mset (orderBy toNumber xs f ord) = mset xs"
  by (induction xs) (simp_all add: orderBy_def mset_insertBy)

lemma set_orderBy: "set (orderBy toNumber xs f ord) = set xs"
  by (induction xs) (simp_all add: orderBy_def set_insertBy)

lemma sorted_insertBy:
  assumes asym: "\<And>a b. a \<in> S \<Longrightarrow> b \<in> S \<Longrightarrow> before a b \<Longrightarrow> \<not> before b a"
    and ntrans: "\<And>a b c. a \<in> S \<Longrightarrow> b \<in> S \<Longrightarrow> c \<in> S \<Longrightarrow>
                   \<not> before b a \<Longrightarrow> \<not> before c b \<Longrightarrow> \<not> before c a"
    and "f x \<in> S" "f ` set ys \<subseteq> S"
    and "sorted_wrt (\<lambda>a b. \<not> before (f b) (f a)) ys"
  shows "sorted_wrt (\<lambda>a b. \<not> before (f b) (f a)) (insertBy before f x ys)"
  using assms(3-)
proof (induction ys)
  case Nil
  then show ?case by simp
next
  case (Cons y ys)
  show ?case
  proof (cases "before (f y) (f x)")
    case True
    have "\<not> before (f x) (f y)"
      using asym True Cons.prems by auto
    with True Cons show ?thesis
      by (auto simp add: set_insertBy)
  next
    case False
    have "\<not> before (f z) (f x)" if "z \<in> set ys" for z
    proof -
      have "\<not> before (f z) (f y)" using Cons.prems that by auto
      with False show ?thesis
        using ntrans [of "f x" "f y" "f z"] Cons.prems that by auto
    qed
    with False Cons.prems show ?thesis
      by auto
  qed
qed

lemma sorted_orderBy:
  assumes asym: "\<And>a b. a \<in> S \<Longrightarrow> b \<in> S \<Longrightarrow> comesBefore toNumber ord a b \<Longrightarrow> \<not> comesBefore toNumber ord b a"
    and ntrans: "\<And>a b c. a \<in> S \<Longrightarrow> b \<in> S \<Longrightarrow> c \<in> S \<Longrightarrow>
                   \<not> comesBefore toNumber ord b a \<Longrightarrow> \<not> comesBefore toNumber ord c b \<Longrightarrow> \<not> comesBefore toNumber ord c a"
    and "f ` set xs \<subseteq> S"
  shows "sorted_wrt (\<lambda>a b. \<not> comesBefore toNumber ord (f b) (f a)) (orderBy toNumber xs f ord)"
  using assms(3)
proof (induction xs)
  case Nil
  then show ?case by (simp add: orderBy_def)
next
  case (Cons x xs)
  have "sorted_wrt (\<lambda>a b. \<not> comesBefore toNumber ord (f b) (f a))
          (insertBy (comesBefore toNumber ord) f x (orderBy toNumber xs f ord))"
  proof (rule sorted_insertBy [where S = S])
    show "f x \<in> S" using Cons.prems by simp
    show "f ` set (orderBy toNumber xs f ord) \<subseteq> S" using Cons.prems by (simp add: set_orderBy)
    show "sorted_wrt (\<lambda>a b. \<not> comesBefore toNumber ord (f b) (f a)) (orderBy toNumber xs f ord)"
      using Cons by simp
  qed (use asym ntrans in blast)+
  then show ?case by (simp add: orderBy_def)
qed

lemma num_lt_asym: "num_lt a b \<Longrightarrow> \<not> num_lt b a"
  by (cases a; cases b) auto

lemma num_lt_ntrans:
  "a \<noteq> NaN \<Longrightarrow> b \<noteq> NaN \<Longrightarrow> c \<noteq> NaN \<Longrightarrow> \<not> num_lt b a \<Longrightarrow> \<not> num_lt c b \<Longrightarrow> \<not> num_lt c a"
  by (cases a; cases b; cases c) auto

lemma num_lt_total: "a \<noteq> NaN \<Longrightarrow> b \<noteq> NaN \<Longrightarrow> \<not> num_lt b a \<Longrightarrow> a = b \<or> num_lt a b"
  by (cases a; cases b) auto

lemma sortValueMapper_not_NaN: "sortValueMapper s row \<noteq> Num NaN"
  by (auto simp add: sortValueMapper_def Let_def isNaN_def split: option.splits SortValue.splits)

lemma comesBefore_num:
  assumes "a \<noteq> NaN" "b \<noteq> NaN"
  shows "comesBefore toNumber ord (Num a) (Num b) \<Longrightarrow> \<not> comesBefore toNumber ord (Num b) (Num a)"
    and "\<not> comesBefore toNumber ord (Num b) (Num a) \<Longrightarrow> Num a = Num b \<or> comesBefore toNumber ord (Num a) (Num b)"
    and "c \<noteq> NaN \<Longrightarrow> \<not> comesBefore toNumber ord (Num b) (Num a) \<Longrightarrow> \<not> comesBefore toNumber ord (Num c) (Num b)
           \<Longrightarrow> \<not> comesBefore toNumber ord (Num c) (Num a)"
  using assms num_lt_asym [of a b] num_lt_asym [of b a] num_lt_total [of a b] num_lt_total [of b a]
    num_lt_ntrans [of a b c] num_lt_ntrans [of c b a]
  by (auto simp add: comesBefore_def)

lemma comesBefore_str:
  shows "comesBefore toNumber ord (Str a) (Str b) \<Longrightarrow> \<not> comesBefore toNumber ord (Str b) (Str a)"
    and "\<not> comesBefore toNumber ord (Str b) (Str a) \<Longrightarrow> Str a = Str b \<or> comesBefore toNumber ord (Str a) (Str b)"
    and "\<not> comesBefore toNumber ord (Str b) (Str a) \<Longrightarrow> \<not> comesBefore toNumber ord (Str c) (Str b)
           \<Longrightarrow> \<not> comesBefore toNumber ord (Str c) (Str a)"
  by (auto simp add: comesBefore_def)

text \<open>
  On keys that are all numbers other than NaN, or all strings, the comparison is a strict
  weak order: asymmetric, total up to equality, and with a transitive complement.
\<close>

lemma key_set_cases:
  assumes "S = {k. \<exists>n. k = Num n \<and> n \<noteq> NaN} \<or> S = range Str" "a \<in> S" "b \<in> S"
  obtains (num) x y where "a = Num x" "b = Num y" "x \<noteq> NaN" "y \<noteq> NaN"
    | (str) x y where "a = Str x" "b = Str y"
  using assms by blast

lemma comesBefore_asym:
  assumes "S = {k. \<exists>n. k = Num n \<and> n \<noteq> NaN} \<or> S = range Str" "a \<in> S" "b \<in> S"
    and "comesBefore toNumber ord a b"
  shows "\<not> comesBefore toNumber ord b a"
  using assms(1-3)
proof (cases rule: key_set_cases)
  case (num x y)
  with assms(4) show ?thesis by (simp add: comesBefore_num(1))
next
  case (str x y)
  with assms(4) show ?thesis by (simp add: comesBefore_str(1))
qed

lemma comesBefore_total:
  assumes "S = {k. \<exists>n. k = Num n \<and> n \<noteq> NaN} \<or> S = range Str" "a \<in> S" "b \<in> S"
    and "\<not> comesBefore toNumber ord b a"
  shows "a = b \<or> comesBefore toNumber ord a b"
  using assms(1-3)
proof (cases rule: key_set_cases)
  case (num x y)
  with assms(4) comesBefore_num(2) [where a = x and b = y and ord = ord and toNumber = toNumber] show ?thesis by simp
next
  case (str x y)
  with assms(4) comesBefore_str(2) [where a = x and b = y and ord = ord and toNumber = toNumber] show ?thesis by simp
qed

lemma comesBefore_ntrans:
  assumes S: "S = {k. \<exists>n. k = Num n \<and> n \<noteq> NaN} \<or> S = range Str"
    and "a \<in> S" "b \<in> S" "c \<in> S"
    and ba: "\<not> comesBefore toNumber ord b a" and cb: "\<not> comesBefore toNumber ord c b"
  shows "\<not> comesBefore toNumber ord c a"
  using S \<open>a \<in> S\<close> \<open>b \<in> S\<close>
proof (cases rule: key_set_cases)
  case (num x y)
  with S \<open>a \<in> S\<close> \<open>c \<in> S\<close> obtain z where z: "c = Num z" "z \<noteq> NaN" by auto
  from comesBefore_num(3) [where a = x and b = y and c = z and ord = ord and toNumber = toNumber] num z ba cb show ?thesis by simp
next
  case (str x y)
  with S \<open>a \<in> S\<close> \<open>c \<in> S\<close> obtain z where z: "c = Str z" by auto
  from comesBefore_str(3) [where a = x and b = y and c = z and ord = ord and toNumber = toNumber] str z ba cb show ?thesis by simp
qed

lemma sorted_orderBy_inOrder:
  assumes S: "S = {k. \<exists>n. k = Num n \<and> n \<noteq> NaN} \<or> S = range Str"
    and keys: "f ` set xs \<subseteq> S"
  shows "sorted_wrt (\<lambda>a b. inOrder toNumber ord (f a) (f b)) (orderBy toNumber xs f ord)"
proof -
  have "sorted_wrt (\<lambda>a b. \<not> comesBefore toNumber ord (f b) (f a)) (orderBy toNumber xs f ord)"
  proof (rule sorted_orderBy [where S = S])
    show "f ` set xs \<subseteq> S" by (rule keys)
  next
    fix a b
    assume "a \<in> S" "b \<in> S" "comesBefore toNumber ord a b"
    then show "\<not> comesBefore toNumber ord b a" by (rule comesBefore_asym [OF S])
  next
    fix a b c
    assume "a \<in> S" "b \<in> S" "c \<in> S" "\<not> comesBefore toNumber ord b a" "\<not> comesBefore toNumber ord c b"
    then show "\<not> comesBefore toNumber ord c a" by (rule comesBefore_ntrans [OF S])
  qed
  then show ?thesis
  proof (rule sorted_wrt_mono_rel [rotated])
    fix x y
    assume x: "x \<in> set (orderBy toNumber xs f ord)" and y: "y \<in> set (orderBy toNumber xs f ord)"
      and n: "\<not> comesBefore toNumber ord (f y) (f x)"
    from x y keys have "f x \<in> S" "f y \<in> S"
      by (auto simp add: set_orderBy)
    then have "f x = f y \<or> comesBefore toNumber ord (f x) (f y)"
      using n by (rule comesBefore_total [OF S])
    then show "inOrder toNumber ord (f x) (f y)"
      by (simp add: inOrder_def)
  qed
qed

lemma comparableKeys_subset:
  assumes "comparableKeys (map (sortValueMapper s) xs)"
  shows "\<exists>S. (S = {k. \<exists>n. k = Num n \<and> n \<noteq> NaN} \<or> S = range Str)
           \<and> sortValueMapper s ` set xs \<subseteq> S"
proof -
  from assms have
    "list_all (\<lambda>k. case k of Num _ \<Rightarrow> True | Str _ \<Rightarrow> False) (map (sortValueMapper s) xs)
     \<or> list_all (\<lambda>k. case k of Num _ \<Rightarrow> False | Str _ \<Rightarrow> True) (map (sortValueMapper s) xs)"
    by (simp only: comparableKeys_def)
  then show ?thesis
  proof
    assume "list_all (\<lambda>k. case k of Num _ \<Rightarrow> True | Str _ \<Rightarrow> False)
              (map (sortValueMapper s) xs)"
    then have all: "\<forall>x \<in> set xs. case sortValueMapper s x of Num _ \<Rightarrow> True | Str _ \<Rightarrow> False"
      by (simp add: list_all_iff)
    have "sortValueMapper s ` set xs \<subseteq> {k. \<exists>n. k = Num n \<and> n \<noteq> NaN}"
    proof
      fix k
      assume "k \<in> sortValueMapper s ` set xs"
      then obtain x where x: "x \<in> set xs" "k = sortValueMapper s x" by blast
      with all have "case k of Num _ \<Rightarrow> True | Str _ \<Rightarrow> False" by simp
      then obtain n where "k = Num n" by (cases k) simp_all
      moreover have "k \<noteq> Num NaN" using x sortValueMapper_not_NaN by simp
      ultimately show "k \<in> {k. \<exists>n. k = Num n \<and> n \<noteq> NaN}" by simp
    qed
    then show ?thesis by blast
  next
    assume "list_all (\<lambda>k. case k of Num _ \<Rightarrow> False | Str _ \<Rightarrow> True)
              (map (sortValueMapper s) xs)"
    then have all: "\<forall>x \<in> set xs. case sortValueMapper s x of Num _ \<Rightarrow> False | Str _ \<Rightarrow> True"
      by (simp add: list_all_iff)
    have "sortValueMapper s ` set xs \<subseteq> range Str"
    proof
      fix k
      assume "k \<in> sortValueMapper s ` set xs"
      then obtain x where x: "x \<in> set xs" "k = sortValueMapper s x" by blast
      with all have "case k of Num _ \<Rightarrow> False | Str _ \<Rightarrow> True" by simp
      then show "k \<in> range Str" by (cases k) simp_all
    qed
    then show ?thesis by blast
  qed
qed

lemma sortValueMapper_entity:
  "dimIndex s = ENTITY_DIM_INDEX \<Longrightarrow> sortValueMapper s row = Str (entity row)"
  by (simp add: sortValueMapper_def)

lemma comparableKeys_entity:
  assumes "dimIndex s = ENTITY_DIM_INDEX"
  shows "comparableKeys (map (sortValueMapper s) xs)"
proof -
  have "list_all (\<lambda>k. case k of Num _ \<Rightarrow> False | Str _ \<Rightarrow> True) (map (sortValueMapper s) xs)"
    by (simp add: list_all_iff sortValueMapper_entity [OF assms])
  then show ?thesis by (simp add: comparableKeys_def)
qed

lemma table_displayRows_eq:
  "sortState stored t = Inr s \<Longrightarrow>
     table_displayRows toNumber stored t = Inr (orderBy toNumber (displayRows t) (sortValueMapper s) (order s))"
  by (simp add: table_displayRows_def)

text \<open>The sort key of a row when a dimension column is selected.\<close>

lemma sortValueMapper_dimension:
  assumes "dimIndex s \<noteq> ENTITY_DIM_INDEX"
  shows "sortValueMapper s row =
     (case (case at_index (dimensionValues row) (dimIndex s) of
              Some (Some (SingleValue (Some v))) \<Rightarrow> val v
            | Some (Some (RangeValue st en de dr)) \<Rightarrow>
                (case (case columnKey s of
                         Some key_start \<Rightarrow> st
                       | Some key_end \<Rightarrow> en
                       | Some key_delta \<Rightarrow> de
                       | Some key_deltaRatio \<Rightarrow> dr
                       | _ \<Rightarrow> None) of
                   Some v \<Rightarrow> val v
                 | None \<Rightarrow> None)
            | _ \<Rightarrow> None) of
        Some (Str x) \<Rightarrow> Str x
      | Some (Num (Finite r)) \<Rightarrow> Num (Finite r)
      | _ \<Rightarrow> (if order s = asc then Num PosInfinity else Num NegInfinity))"
  using assms
  by (auto simp add: sortValueMapper_def Let_def isSingleValue_def isRangeValue_def
      inRangeValueKey_def isFinite_def isNaN_def
      split: option.splits DimensionValue.splits ColumnKey.splits SortValue.splits
        jsnumber.splits)

text \<open>
  Claim C1, as the code has it. For the current sort state, the one the getter derives,
  the displayed rows are the rows of the transform, each exactly once and unchanged,
  ordered by a sort key. The key of a row is the entity name when the entity column is
  selected; otherwise it is the row's value in the selected dimension (its single value,
  or for a range the value under the selected column key) when that is a string or a
  finite number, and plus infinity in ascending or minus infinity in descending order
  when the value is missing, NaN or infinite. When the keys are all numbers or all
  strings, as they are for the entity column, each displayed row's key is equal to or
  strictly before (in the selected order) the key of every row displayed after it.
\<close>

theorem table_displayRows_sorted:
  assumes "sortState stored t = Inr s"
  shows "\<exists>rows. table_displayRows toNumber stored t = Inr rows
     \<and> mset rows = mset (displayRows t)
     \<and> (comparableKeys (map (sortValueMapper s) (displayRows t)) \<longrightarrow>
          sorted_wrt (\<lambda>a b. inOrder toNumber (order s) (sortValueMapper s a) (sortValueMapper s b)) rows)
     \<and> (dimIndex s = ENTITY_DIM_INDEX \<longrightarrow>
          (\<forall>row. sortValueMapper s row = Str (entity row))
          \<and> comparableKeys (map (sortValueMapper s) (displayRows t)))
     \<and> (dimIndex s \<noteq> ENTITY_DIM_INDEX \<longrightarrow>
          (\<forall>row. sortValueMapper s row =
             (case (case at_index (dimensionValues row) (dimIndex s) of
                      Some (Some (SingleValue (Some v))) \<Rightarrow> val v
                    | Some (Some (RangeValue st en de dr)) \<Rightarrow>
                        (case (case columnKey s of
                                 Some key_start \<Rightarrow> st
                               | Some key_end \<Rightarrow> en
                               | Some key_delta \<Rightarrow> de
                               | Some key_deltaRatio \<Rightarrow> dr
                               | _ \<Rightarrow> None) of
                           Some v \<Rightarrow> val v
                         | None \<Rightarrow> None)
                    | _ \<Rightarrow> None) of
                Some (Str x) \<Rightarrow> Str x
              | Some (Num (Finite r)) \<Rightarrow> Num (Finite r)
              | _ \<Rightarrow> (if order s = asc then Num PosInfinity else Num NegInfinity))))"
proof -
  let ?rows = "orderBy toNumber (displayRows t) (sortValueMapper s) (order s)"
  have a: "table_displayRows toNumber stored t = Inr ?rows"
    using assms by (rule table_displayRows_eq)
  have b: "mset ?rows = mset (displayRows t)"
    by (rule mset_orderBy)
  have c: "sorted_wrt (\<lambda>a b. inOrder toNumber (order s) (sortValueMapper s a) (sortValueMapper s b)) ?rows"
    if "comparableKeys (map (sortValueMapper s) (displayRows t))"
  proof -
    from comparableKeys_subset [OF that]
    have "sortValueMapper s ` set (displayRows t) \<subseteq> {k. \<exists>n. k = Num n \<and> n \<noteq> NaN}
        \<or> sortValueMapper s ` set (displayRows t) \<subseteq> range Str"
      by (elim exE conjE disjE) simp_all
    then show ?thesis
    proof
      assume "sortValueMapper s ` set (displayRows t) \<subseteq> {k. \<exists>n. k = Num n \<and> n \<noteq> NaN}"
      with disjI1 show ?thesis by (rule sorted_orderBy_inOrder) simp
    next
      assume "sortValueMapper s ` set (displayRows t) \<subseteq> range Str"
      with disjI2 show ?thesis by (rule sorted_orderBy_inOrder) simp
    qed
  qed
  have d1: "\<forall>row. sortValueMapper s row = Str (entity row)"
    if "dimIndex s = ENTITY_DIM_INDEX"
    using that by (simp add: sortValueMapper_entity)
  have d2: "comparableKeys (map (sortValueMapper s) (displayRows t))"
    if "dimIndex s = ENTITY_DIM_INDEX"
    using that by (rule comparableKeys_entity)
  show ?thesis
  proof (rule exI [of _ ?rows], intro conjI impI)
    show "table_displayRows toNumber stored t = Inr ?rows" by (rule a)
    show "mset ?rows = mset (displayRows t)" by (rule b)
    show "sorted_wrt (\<lambda>a b. inOrder toNumber (order s) (sortValueMapper s a) (sortValueMapper s b)) ?rows"
      if "comparableKeys (map (sortValueMapper s) (displayRows t))"
      using that by (rule c)
    show "\<forall>row. sortValueMapper s row = Str (entity row)"
      if "dimIndex s = ENTITY_DIM_INDEX"
      using that by (rule d1)
    show "comparableKeys (map (sortValueMapper s) (displayRows t))"
      if "dimIndex s = ENTITY_DIM_INDEX"
      using that by (rule d2)
    show "\<forall>row. sortValueMapper s row =
             (case (case at_index (dimensionValues row) (dimIndex s) of
                      Some (Some (SingleValue (Some v))) \<Rightarrow> val v
                    | Some (Some (RangeValue st en de dr)) \<Rightarrow>
                        (case (case columnKey s of
                                 Some key_start \<Rightarrow> st
                               | Some key_end \<Rightarrow> en
                               | Some key_delta \<Rightarrow> de
                               | Some key_deltaRatio \<Rightarrow> dr
                               | _ \<Rightarrow> None) of
                           Some v \<Rightarrow> val v
                         | None \<Rightarrow> None)
                    | _ \<Rightarrow> None) of
                Some (Str x) \<Rightarrow> Str x
              | Some (Num (Finite r)) \<Rightarrow> Num (Finite r)
              | _ \<Rightarrow> (if order s = asc then Num PosInfinity else Num NegInfinity))"
      if "dimIndex s \<noteq> ENTITY_DIM_INDEX"
      using sortValueMapper_dimension [OF that] by blast
  qed
qed

theorem table_displayRows_sorted_witness:
  "sortState \<lparr>dimIndex = 0, columnKey = None, order = desc\<rparr>
      \<lparr>dimensions = [''y''],
       dimensionsWithValues = [\<lparr>columns = [\<lparr>key = key_single, sortable = True\<rparr>]\<rparr>],
       displayRows =
         [\<lparr>entity = ''A'', dimensionValues = [Some (SingleValue (Some
             \<lparr>val = Some (Num (Finite 1)), formattedValue = Some ''1'', year = Some 2020\<rparr>))]\<rparr>,
          \<lparr>entity = ''B'', dimensionValues = [None]\<rparr>,
          \<lparr>entity = ''C'', dimensionValues = [Some (SingleValue (Some
             \<lparr>val = Some (Num (Finite 3)), formattedValue = Some ''3'', year = Some 2020\<rparr>))]\<rparr>]\<rparr>
     = Inr \<lparr>dimIndex = 0, columnKey = Some key_single, order = desc\<rparr>
   \<and> map (sortValueMapper \<lparr>dimIndex = 0, columnKey = Some key_single, order = desc\<rparr>)
         [\<lparr>entity = ''A'', dimensionValues = [Some (SingleValue (Some
             \<lparr>val = Some (Num (Finite 1)), formattedValue = Some ''1'', year = Some 2020\<rparr>))]\<rparr>,
          \<lparr>entity = ''B'', dimensionValues = [None]\<rparr>,
          \<lparr>entity = ''C'', dimensionValues = [Some (SingleValue (Some
             \<lparr>val = Some (Num (Finite 3)), formattedValue = Some ''3'', year = Some 2020\<rparr>))]\<rparr>]
     = [Num (Finite 1), Num NegInfinity, Num (Finite 3)]
   \<and> table_displayRows (\<lambda>text. NaN) \<lparr>dimIndex = 0, columnKey = None, order = desc\<rparr>
      \<lparr>dimensions = [''y''],
       dimensionsWithValues = [\<lparr>columns = [\<lparr>key = key_single, sortable = True\<rparr>]\<rparr>],
       displayRows =
         [\<lparr>entity = ''A'', dimensionValues = [Some (SingleValue (Some
             \<lparr>val = Some (Num (Finite 1)), formattedValue = Some ''1'', year = Some 2020\<rparr>))]\<rparr>,
          \<lparr>entity = ''B'', dimensionValues = [None]\<rparr>,
          \<lparr>entity = ''C'', dimensionValues = [Some (SingleValue (Some
             \<lparr>val = Some (Num (Finite 3)), formattedValue = Some ''3'', year = Some 2020\<rparr>))]\<rparr>]\<rparr>
     = Inr
         [\<lparr>entity = ''C'', dimensionValues = [Some (SingleValue (Some
             \<lparr>val = Some (Num (Finite 3)), formattedValue = Some ''3'', year = Some 2020\<rparr>))]\<rparr>,
          \<lparr>entity = ''A'', dimensionValues = [Some (SingleValue (Some
             \<lparr>val = Some (Num (Finite 1)), formattedValue = Some ''1'', year = Some 2020\<rparr>))]\<rparr>,
          \<lparr>entity = ''B'', dimensionValues = [None]\<rparr>]
   \<and> sorted_wrt
        (\<lambda>a b. inOrder (\<lambda>text. NaN) desc
           (sortValueMapper \<lparr>dimIndex = 0, columnKey = Some key_single, order = desc\<rparr> a)
           (sortValueMapper \<lparr>dimIndex = 0, columnKey = Some key_single, order = desc\<rparr> b))
         [\<lparr>entity = ''C'', dimensionValues = [Some (SingleValue (Some
             \<lparr>val = Some (Num (Finite 3)), formattedValue = Some ''3'', year = Some 2020\<rparr>))]\<rparr>,
          \<lparr>entity = ''A'', dimensionValues = [Some (SingleValue (Some
             \<lparr>val = Some (Num (Finite 1)), formattedValue = Some ''1'', year = Some 2020\<rparr>))]\<rparr>,
          \<lparr>entity = ''B'', dimensionValues = [None]\<rparr>]"
  (is "sortState ?S ?T = Inr ?C \<and> map _ ?D = ?K \<and> table_displayRows ?N ?S ?T = Inr ?R \<and> _")
proof -
  have h: "sortState ?S ?T = Inr ?C"
    by (simp add: sortState_def ENTITY_DIM_INDEX_def at_index_def)
  have ne: "dimIndex ?C \<noteq> ENTITY_DIM_INDEX"
    by (simp add: ENTITY_DIM_INDEX_def)
  from table_displayRows_sorted [OF h, of ?N] ne
  have key: "\<forall>row. sortValueMapper ?C row =
             (case (case at_index (dimensionValues row) (dimIndex ?C) of
                      Some (Some (SingleValue (Some v))) \<Rightarrow> val v
                    | Some (Some (RangeValue st en de dr)) \<Rightarrow>
                        (case (case columnKey ?C of
                                 Some key_start \<Rightarrow> st
                               | Some key_end \<Rightarrow> en
                               | Some key_delta \<Rightarrow> de
                               | Some key_deltaRatio \<Rightarrow> dr
                               | _ \<Rightarrow> None) of
                           Some v \<Rightarrow> val v
                         | None \<Rightarrow> None)
                    | _ \<Rightarrow> None) of
                Some (Str x) \<Rightarrow> Str x
              | Some (Num (Finite r)) \<Rightarrow> Num (Finite r)
              | _ \<Rightarrow> (if order ?C = asc then Num PosInfinity else Num NegInfinity))"
    by blast
  have k: "map (sortValueMapper ?C) ?D = ?K"
    by (simp add: key at_index_def)
  have d: "displayRows ?T = ?D"
    by simp
  have c: "comparableKeys (map (sortValueMapper ?C) (displayRows ?T))"
    unfolding d k by (simp add: comparableKeys_def)
  have r: "table_displayRows ?N ?S ?T = Inr ?R"
    unfolding table_displayRows_eq [OF h]
    by (simp add: orderBy_def comesBefore_def sortValueMapper_def ENTITY_DIM_INDEX_def
        at_index_def isSingleValue_def isFinite_def isNaN_def)
  from table_displayRows_sorted [OF h, of ?N] c r
  have "sorted_wrt (\<lambda>a b. inOrder ?N (order ?C) (sortValueMapper ?C a) (sortValueMapper ?C b)) ?R"
    by auto
  with h k r show ?thesis
    by simp
qed

text \<open>
  Rows are not always sorted by the value of the selected column. An infinite value is
  keyed like a missing one: sorting ascending by the relative change, the row whose
  change is minus infinity is displayed after the row whose change is one half. And in a
  column of strings a missing value gets a number as its key, which \<^verbatim>\<open><\<close> orders
  against no string that is not numeric: sorting ascending, the rows with "b", no value
  and "a" stay in this order. (The conversion given here yields NaN, as JavaScript's does
  for "a" and "b".)
\<close>

theorem table_displayRows_not_sorted_by_value:
  "js_lt (\<lambda>text. NaN) (Num NegInfinity) (Num (Finite (1 / 2)))
   \<and> table_displayRows (\<lambda>text. NaN)
      \<lparr>dimIndex = 0, columnKey = Some key_deltaRatio, order = asc\<rparr>
      \<lparr>dimensions = [''y''],
       dimensionsWithValues =
         [\<lparr>columns = [\<lparr>key = key_start, sortable = True\<rparr>, \<lparr>key = key_end, sortable = True\<rparr>,
                      \<lparr>key = key_delta, sortable = True\<rparr>,
                      \<lparr>key = key_deltaRatio, sortable = True\<rparr>]\<rparr>],
       displayRows =
         [\<lparr>entity = ''A'', dimensionValues = [Some (RangeValue
             (Some \<lparr>val = Some (Num (Finite 0)), formattedValue = None, year = None\<rparr>)
             (Some \<lparr>val = Some (Num (Finite (- 3))), formattedValue = None, year = None\<rparr>)
             (Some \<lparr>val = Some (Num (Finite (- 3))), formattedValue = None, year = None\<rparr>)
             (Some \<lparr>val = Some (Num NegInfinity), formattedValue = None, year = None\<rparr>))]\<rparr>,
          \<lparr>entity = ''B'', dimensionValues = [Some (RangeValue
             (Some \<lparr>val = Some (Num (Finite 2)), formattedValue = None, year = None\<rparr>)
             (Some \<lparr>val = Some (Num (Finite 3)), formattedValue = None, year = None\<rparr>)
             (Some \<lparr>val = Some (Num (Finite 1)), formattedValue = None, year = None\<rparr>)
             (Some \<lparr>val = Some (Num (Finite (1 / 2))), formattedValue = None, year = None\<rparr>))]\<rparr>]\<rparr>
     = Inr
         [\<lparr>entity = ''B'', dimensionValues = [Some (RangeValue
             (Some \<lparr>val = Some (Num (Finite 2)), formattedValue = None, year = None\<rparr>)
             (Some \<lparr>val = Some (Num (Finite 3)), formattedValue = None, year = None\<rparr>)
             (Some \<lparr>val = Some (Num (Finite 1)), formattedValue = None, year = None\<rparr>)
             (Some \<lparr>val = Some (Num (Finite (1 / 2))), formattedValue = None, year = None\<rparr>))]\<rparr>,
          \<lparr>entity = ''A'', dimensionValues = [Some (RangeValue
             (Some \<lparr>val = Some (Num (Finite 0)), formattedValue = None, year = None\<rparr>)
             (Some \<lparr>val = Some (Num (Finite (- 3))), formattedValue = None, year = None\<rparr>)
             (Some \<lparr>val = Some (Num (Finite (- 3))), formattedValue = None, year = None\<rparr>)
             (Some \<lparr>val = Some (Num NegInfinity), formattedValue = None, year = None\<rparr>))]\<rparr>]
   \<and> js_lt (\<lambda>text. NaN) (Str ''a'') (Str ''b'')
   \<and> table_displayRows (\<lambda>text. NaN)
      \<lparr>dimIndex = 0, columnKey = Some key_single, order = asc\<rparr>
      \<lparr>dimensions = [''y''],
       dimensionsWithValues = [\<lparr>columns = [\<lparr>key = key_single, sortable = True\<rparr>]\<rparr>],
       displayRows =
         [\<lparr>entity = ''A'', dimensionValues = [Some (SingleValue (Some
             \<lparr>val = Some (Str ''b''), formattedValue = Some ''b'', year = Some 2020\<rparr>))]\<rparr>,
          \<lparr>entity = ''B'', dimensionValues = [None]\<rparr>,
          \<lparr>entity = ''C'', dimensionValues = [Some (SingleValue (Some
             \<lparr>val = Some (Str ''a''), formattedValue = Some ''a'', year = Some 2020\<rparr>))]\<rparr>]\<rparr>
     = Inr
         [\<lparr>entity = ''A'', dimensionValues = [Some (SingleValue (Some
             \<lparr>val = Some (Str ''b''), formattedValue = Some ''b'', year = Some 2020\<rparr>))]\<rparr>,
          \<lparr>entity = ''B'', dimensionValues = [None]\<rparr>,
          \<lparr>entity = ''C'', dimensionValues = [Some (SingleValue (Some
             \<lparr>val = Some (Str ''a''), formattedValue = Some ''a'', year = Some 2020\<rparr>))]\<rparr>]"
  by (simp add: table_displayRows_def sortState_def orderBy_def comesBefore_def
      sortValueMapper_def ENTITY_DIM_INDEX_def at_index_def isSingleValue_def isRangeValue_def
      inRangeValueKey_def isFinite_def isNaN_def)

section \<open>Properties of the indexing script\<close>

subsection \<open>The loops of the script and the linear job\<close>

lemma pushCountries_eq: "pushCountries cs records = records @ map countryRecord cs"
  by (induction cs arbitrary: records) simp_all

lemma pushChunks_eq:
  "pushChunks row post cs i records
     = records @ map (\<lambda>(j, c). chunkRecord row post j c) (enumerate i cs)"
  by (induction cs arbitrary: i records) simp_all

lemma run_linear_append:
  "run_linear w (xs @ ys) tr
     = (case run_linear w xs tr of Inl e \<Rightarrow> Inl e | Inr tr' \<Rightarrow> run_linear w ys tr')"
  by (induction xs arbitrary: tr) (simp_all split: sum.splits)

lemma postLoop_eq:
  "postLoop w rows tr records
     = (case run_linear w
               (concat (map (\<lambda>row. [GetFullPost row, FormatPost (getFullPost w row)]) rows)) tr of
          Inl e \<Rightarrow> Inl e
        | Inr tr' \<Rightarrow> Inr (tr', records @ concat (map (postRecords w) rows)))"
proof (induction rows arbitrary: tr records)
  case Nil
  then show ?case by simp
next
  case (Cons row rows)
  have p: "pushChunks row (formatPost w (getFullPost w row))
        (chunkParagraphs w (htmlToPlaintext w (fp_html (formatPost w (getFullPost w row)))) 1000)
        0 records
      = records @ postRecords w row"
    by (simp add: pushChunks_eq postRecords_def Let_def)
  show ?case
    by (simp add: Cons.IH Let_def p split: sum.splits)
qed

lemma slice_take_drop: "slice xs i (i + n) = take n (drop i xs)"
  by (simp add: slice_def)

lemma saveLoop_eq:
  "saveLoop w idx records i tr
     = run_linear w (map (SaveObjects idx) (slices 1000 (drop i records))) tr"
proof (induction w idx records i tr rule: saveLoop.induct)
  case (1 w idx records i tr)
  show ?case
  proof (cases "i < length records")
    case True
    then have s: "slices 1000 (drop i records)
        = take 1000 (drop i records) # slices 1000 (drop (i + 1000) records)"
      by (subst slices.simps) (simp add: add.commute)
    show ?thesis
      using True 1
      by (subst saveLoop.simps) (simp add: s slice_take_drop split: sum.splits)
  next
    case False
    then have "slices 1000 (drop i records) = []"
      by (subst slices.simps) simp
    with False show ?thesis
      by (subst saveLoop.simps) simp
  qed
qed

text \<open>The query of the script is understood, and selects the published rows.\<close>

lemma posts_query_tokens:
  "lex Outside posts_query =
     Some [T_word ''SELECT'', T_star, T_word ''FROM'', T_word ''wp_posts'', T_word ''WHERE'',
       T_lparen, T_word ''post_type'', T_eq, T_literal ''post'', T_word ''OR'',
       T_word ''post_type'', T_eq, T_literal ''page'', T_rparen, T_word ''AND'',
       T_word ''post_status'', T_eq, T_literal ''publish'']"
  by (simp add: posts_query_def classify_def emit_def)

lemma posts_query_parsed:
  "parse_select
     [T_word ''SELECT'', T_star, T_word ''FROM'', T_word ''wp_posts'', T_word ''WHERE'',
       T_lparen, T_word ''post_type'', T_eq, T_literal ''post'', T_word ''OR'',
       T_word ''post_type'', T_eq, T_literal ''page'', T_rparen, T_word ''AND'',
       T_word ''post_status'', T_eq, T_literal ''publish'']
     = Some (''wp_posts'',
         And (Or (Eq ''post_type'' ''post'') (Eq ''post_type'' ''page''))
           (Eq ''post_status'' ''publish''))"
  by code_simp

lemma wpdb_query_posts:
  "wpdb_query w posts_query = Some (filter (published w) (wp_posts w))"
proof -
  have "satisfies (collation w) r
      (And (Or (Eq ''post_type'' ''post'') (Eq ''post_type'' ''page''))
         (Eq ''post_status'' ''publish'')) = published w r" for r
    by (simp add: column_def published_def)
  then show ?thesis
    by (simp add: wpdb_query_def posts_query_tokens posts_query_parsed)
qed

lemma indexToAlgolia_linear:
  "indexToAlgolia w
     = (case run_linear w (planned_calls w) [] of
          Inl e \<Rightarrow> Inl e
        | Inr tr \<Rightarrow> Inr (tr @ [DbEnd]))"
  by (simp add: indexToAlgolia_def planned_calls_def Let_def postLoop_eq saveLoop_eq
      run_linear_append pushCountries_eq all_records_def wpdb_query_posts split: sum.splits)

subsection \<open>Runs of a linear job\<close>

lemma run_linear_ok:
  "\<forall>c \<in> set cs. \<not> rejects w c \<Longrightarrow> run_linear w cs tr = Inr (tr @ cs)"
  by (induction cs arbitrary: tr) (simp_all add: await_def)

lemma run_linear_done:
  "run_linear w cs tr = Inr t \<Longrightarrow> t = tr @ cs \<and> (\<forall>c \<in> set cs. \<not> rejects w c)"
proof (induction cs arbitrary: tr)
  case Nil
  then show ?case by simp
next
  case (Cons a cs)
  from Cons.prems have a: "\<not> rejects w a" and r: "run_linear w cs (tr @ [a]) = Inr t"
    by (simp_all add: await_def split: if_splits)
  from Cons.IH [OF r] a show ?case by simp
qed

lemma run_linear_abort:
  "run_linear w cs tr = Inl (Aborted t) \<Longrightarrow>
     \<exists>pre c post. cs = pre @ c # post \<and> t = tr @ pre @ [c] \<and> rejects w c
        \<and> (\<forall>x \<in> set pre. \<not> rejects w x)"
proof (induction cs arbitrary: tr)
  case Nil
  then show ?case by simp
next
  case (Cons a cs)
  show ?case
  proof (cases "rejects w a")
    case True
    with Cons.prems have "t = tr @ [] @ [a]" by (simp add: await_def)
    with True show ?thesis by (metis append_Nil empty_iff list.set(1))
  next
    case False
    with Cons.prems have "run_linear w cs (tr @ [a]) = Inl (Aborted t)"
      by (simp add: await_def)
    from Cons.IH [OF this] obtain pre c post where
      "cs = pre @ c # post" "t = (tr @ [a]) @ pre @ [c]" "rejects w c"
      "\<forall>x \<in> set pre. \<not> rejects w x"
      by blast
    with False have "a # cs = (a # pre) @ c # post \<and> t = tr @ (a # pre) @ [c] \<and> rejects w c
        \<and> (\<forall>x \<in> set (a # pre). \<not> rejects w x)"
      by simp
    then show ?thesis by blast
  qed
qed

lemma run_linear_calls:
  "\<exists>rest. tr @ cs = calls_of (run_linear w cs tr) @ rest"
proof (cases "run_linear w cs tr")
  case (Inl e)
  then obtain t where "run_linear w cs tr = Inl (Aborted t)" by (cases e) simp
  with run_linear_abort [OF this] show ?thesis by auto
next
  case (Inr t)
  with run_linear_done [OF Inr] show ?thesis by simp
qed

lemma concat_slices: "0 < n \<Longrightarrow> concat (slices n xs) = xs"
proof (induction n xs rule: slices.induct)
  case (1 n xs)
  then show ?case by (subst slices.simps) auto
qed

lemma slices_bounds: "s \<in> set (slices n xs) \<Longrightarrow> length s \<le> n \<and> s \<noteq> []"
proof (induction n xs rule: slices.induct)
  case (1 n xs)
  show ?case
  proof (cases "n = 0 \<or> xs = []")
    case True
    with "1.prems" show ?thesis by (subst (asm) slices.simps) simp
  next
    case False
    with "1.prems" have "s = take n xs \<or> s \<in> set (slices n (drop n xs))"
      by (subst (asm) slices.simps) simp
    then show ?thesis
    proof
      assume "s = take n xs"
      with False show ?thesis by simp
    next
      assume "s \<in> set (slices n (drop n xs))"
      with "1.IH" [OF False] show ?thesis by simp
    qed
  qed
qed

lemma slices_nth:
  "i < length (slices n xs) \<Longrightarrow> slices n xs ! i = slice xs (i * n) (i * n + n)"
proof (induction n xs arbitrary: i rule: slices.induct)
  case (1 n xs)
  show ?case
  proof (cases "n = 0 \<or> xs = []")
    case True
    with "1.prems" show ?thesis by (subst (asm) slices.simps) simp
  next
    case False
    then have s: "slices n xs = take n xs # slices n (drop n xs)"
      by (subst slices.simps) simp
    show ?thesis
    proof (cases i)
      case 0
      then show ?thesis by (simp add: s slice_def)
    next
      case (Suc j)
      with "1.prems" s have "j < length (slices n (drop n xs))" by simp
      from "1.IH" [OF False this] Suc show ?thesis
        by (simp add: s slice_def add.commute)
    qed
  qed
qed

lemma uploads_append: "uploads (xs @ ys) = uploads xs @ uploads ys"
  by (induction xs rule: uploads.induct) simp_all

lemma uploads_SaveObjects: "uploads (map (SaveObjects idx) ss) = ss"
  by (induction ss) simp_all

lemma uploads_post_calls:
  "uploads (concat (map (\<lambda>row. [GetFullPost row, FormatPost (f row)]) rows)) = []"
  by (induction rows) simp_all

lemma uploads_planned: "uploads (planned_calls w @ [DbEnd]) = slices 1000 (all_records w)"
  by (simp add: planned_calls_def uploads_append uploads_SaveObjects uploads_post_calls)

lemma uploads_mem: "SaveObjects idx recs \<in> set tr \<Longrightarrow> recs \<in> set (uploads tr)"
  by (induction tr rule: uploads.induct) auto

lemma indexToAlgolia_calls:
  "\<exists>rest. planned_calls w @ [DbEnd] = calls_of (indexToAlgolia w) @ rest"
proof (cases "run_linear w (planned_calls w) []")
  case (Inl e)
  with run_linear_calls [of "[]" "planned_calls w" w]
  obtain rest where "planned_calls w = calls_of (indexToAlgolia w) @ rest"
    by (auto simp add: indexToAlgolia_linear)
  then have "planned_calls w @ [DbEnd] = calls_of (indexToAlgolia w) @ (rest @ [DbEnd])"
    by simp
  then show ?thesis by blast
next
  case (Inr tr)
  with run_linear_done [OF Inr] show ?thesis
    by (simp add: indexToAlgolia_linear)
qed

text \<open>All calls of a run but the last were accepted.\<close>

lemma indexToAlgolia_accepted:
  "\<forall>c \<in> set (butlast (calls_of (indexToAlgolia w))). \<not> rejects w c"
proof (cases "run_linear w (planned_calls w) []")
  case (Inl e)
  then obtain t where t: "run_linear w (planned_calls w) [] = Inl (Aborted t)"
    by (cases e) simp
  from run_linear_abort [OF t] obtain pre c where
    "t = pre @ [c]" "\<forall>x \<in> set pre. \<not> rejects w x"
    by auto
  with t show ?thesis
    by (simp add: indexToAlgolia_linear)
next
  case (Inr tr)
  with run_linear_done [OF Inr] show ?thesis
    by (simp add: indexToAlgolia_linear)
qed

lemma rejected_is_last:
  assumes "\<forall>x \<in> set (butlast xs). \<not> P x" and "xs = pre @ c # post" and "P c"
  shows "post = []"
proof (rule ccontr)
  assume "post \<noteq> []"
  then have "butlast xs = pre @ c # butlast post"
    using assms(2) by (simp add: butlast_append)
  then have "c \<in> set (butlast xs)"
    by simp
  with assms(1,3) show False by blast
qed

lemma planned_calls_split:
  "\<exists>P. planned_calls w @ [DbEnd] = P @ [MoveIndex ''pages_tmp'' ''pages'', DbEnd]
       \<and> (\<forall>a b. MoveIndex a b \<notin> set P)
       \<and> uploads P = slices 1000 (all_records w)"
proof -
  let ?P = "[InitIndex ''pages'', InitIndex ''pages_tmp'',
      CopyIndex ''pages'' ''pages_tmp'' [''settings'', ''synonyms'', ''rules''],
      Query posts_query]
     @ concat (map (\<lambda>row. [GetFullPost row, FormatPost (getFullPost w row)])
                (filter (published w) (wp_posts w)))
     @ map (SaveObjects ''pages_tmp'') (slices 1000 (all_records w))"
  have "planned_calls w @ [DbEnd] = ?P @ [MoveIndex ''pages_tmp'' ''pages'', DbEnd]"
    by (simp add: planned_calls_def)
  moreover have "\<forall>a b. MoveIndex a b \<notin> set ?P"
    by auto
  moreover have "uploads ?P = slices 1000 (all_records w)"
    by (simp add: uploads_append uploads_SaveObjects uploads_post_calls)
  ultimately show ?thesis by blast
qed

lemma move_position:
  assumes "\<forall>a b. MoveIndex a b \<notin> set P"
    and "pre @ MoveIndex a b # zs = P @ [MoveIndex t f, DbEnd]"
  shows "pre = P \<and> a = t \<and> b = f \<and> zs = [DbEnd]"
  using assms
proof (induction P arbitrary: pre)
  case Nil
  show ?case
  proof (cases pre)
    case Nil
    with Nil.prems show ?thesis by simp
  next
    case (Cons x pre')
    with Nil.prems have "pre' @ MoveIndex a b # zs = [DbEnd]" by simp
    then show ?thesis by (cases pre') simp_all
  qed
next
  case (Cons p P)
  show ?case
  proof (cases pre)
    case Nil
    with Cons.prems show ?thesis by auto
  next
    case (Cons x pre')
    with Cons.prems Cons.IH [of pre'] show ?thesis by auto
  qed
qed

lemma postRecords_objectIDs:
  "map objectID (postRecords w row)
     = map (\<lambda>i. string_of_nat (ID row) @ ''-c'' @ string_of_nat i)
         [0 ..< length (chunkParagraphs w
                          (htmlToPlaintext w (fp_html (formatPost w (getFullPost w row)))) 1000)]"
proof -
  have "map objectID (map (\<lambda>(i, c). chunkRecord row post i c) (enumerate k cs))
      = map (\<lambda>i. string_of_nat (ID row) @ ''-c'' @ string_of_nat i) [k ..< k + length cs]"
    for post k cs
  proof (induction cs arbitrary: k)
    case Nil
    then show ?case by simp
  next
    case (Cons c cs)
    have "[k ..< k + length (c # cs)] = k # [Suc k ..< Suc k + length cs]"
      by (subst upt_rec) simp
    with Cons [of "Suc k"] show ?case
      by (simp add: chunkRecord_def)
  qed
  from this [of _ 0] show ?thesis
    by (simp add: postRecords_def Let_def)
qed

lemma countryRecord_objectIDs:
  "map objectID (map countryRecord cs) = map country_slug cs"
  by (simp add: countryRecord_def)

text \<open>
  Claim C2. The script is the linear job with no retry: its awaited calls are, in order,
  the two \<^verbatim>\<open>initIndex\<close> calls; the copy of settings, synonyms and rules from the final
  index "pages" to the temporary index "pages_tmp"; the query for the post rows, which
  the database answers with the published rows; for each row the fetch and the
  formatting of the post; the uploads of the record list; and the move of the temporary
  index over the final one. After them the database connection is closed, without
  waiting for it. The record list holds one record per country, with the country slug as
  objectID, and then for each post one record per chunk that \<^verbatim>\<open>chunkParagraphs\<close>
  returns for 1000 characters, with objectID "<row ID>-c<i>" for i counting from 0. When
  none of the awaited calls is rejected all calls are issued and the run ends normally;
  when one is rejected the run fails; in every run the calls issued are an initial part
  of this list, and a run that fails ends with its first rejected call.
\<close>

theorem indexToAlgolia_linear_job:
  "indexToAlgolia w
     = (case run_linear w (planned_calls w) [] of
          Inl e \<Rightarrow> Inl e
        | Inr tr \<Rightarrow> Inr (tr @ [DbEnd]))
   \<and> planned_calls w =
       [InitIndex ''pages'', InitIndex ''pages_tmp'',
        CopyIndex ''pages'' ''pages_tmp'' [''settings'', ''synonyms'', ''rules''],
        Query posts_query]
       @ concat (map (\<lambda>row. [GetFullPost row, FormatPost (getFullPost w row)])
                  (filter (published w) (wp_posts w)))
       @ map (SaveObjects ''pages_tmp'') (slices 1000 (all_records w))
       @ [MoveIndex ''pages_tmp'' ''pages'']
   \<and> wpdb_query w posts_query = Some (filter (published w) (wp_posts w))
   \<and> all_records w =
       map countryRecord (countries w)
       @ concat (map (postRecords w) (filter (published w) (wp_posts w)))
   \<and> map objectID (map countryRecord (countries w)) = map country_slug (countries w)
   \<and> (\<forall>row. map objectID (postRecords w row)
         = map (\<lambda>i. string_of_nat (ID row) @ ''-c'' @ string_of_nat i)
             [0 ..< length (chunkParagraphs w
                (htmlToPlaintext w (fp_html (formatPost w (getFullPost w row)))) 1000)])
   \<and> ((\<forall>c \<in> set (planned_calls w). \<not> rejects w c) \<longrightarrow>
         indexToAlgolia w = Inr (planned_calls w @ [DbEnd]))
   \<and> ((\<exists>c \<in> set (planned_calls w). rejects w c) \<longrightarrow>
         (\<exists>t. indexToAlgolia w = Inl (Aborted t)))
   \<and> (\<exists>rest. planned_calls w @ [DbEnd] = calls_of (indexToAlgolia w) @ rest)
   \<and> (\<forall>t. indexToAlgolia w = Inl (Aborted t) \<longrightarrow>
         t \<noteq> [] \<and> rejects w (last t) \<and> last t \<in> set (planned_calls w)
         \<and> (\<forall>c \<in> set (butlast t). \<not> rejects w c))"
proof -
  have a: "indexToAlgolia w
     = (case run_linear w (planned_calls w) [] of
          Inl e \<Rightarrow> Inl e
        | Inr tr \<Rightarrow> Inr (tr @ [DbEnd]))"
    by (rule indexToAlgolia_linear)
  have b: "planned_calls w =
       [InitIndex ''pages'', InitIndex ''pages_tmp'',
        CopyIndex ''pages'' ''pages_tmp'' [''settings'', ''synonyms'', ''rules''],
        Query posts_query]
       @ concat (map (\<lambda>row. [GetFullPost row, FormatPost (getFullPost w row)])
                  (filter (published w) (wp_posts w)))
       @ map (SaveObjects ''pages_tmp'') (slices 1000 (all_records w))
       @ [MoveIndex ''pages_tmp'' ''pages'']"
    by (simp add: planned_calls_def)
  have q: "wpdb_query w posts_query = Some (filter (published w) (wp_posts w))"
    by (rule wpdb_query_posts)
  have c: "all_records w =
       map countryRecord (countries w)
       @ concat (map (postRecords w) (filter (published w) (wp_posts w)))"
    by (simp add: all_records_def)
  have d: "map objectID (map countryRecord (countries w)) = map country_slug (countries w)"
    by (rule countryRecord_objectIDs)
  have e: "\<forall>row. map objectID (postRecords w row)
         = map (\<lambda>i. string_of_nat (ID row) @ ''-c'' @ string_of_nat i)
             [0 ..< length (chunkParagraphs w
                (htmlToPlaintext w (fp_html (formatPost w (getFullPost w row)))) 1000)]"
    using postRecords_objectIDs by blast
  have f: "indexToAlgolia w = Inr (planned_calls w @ [DbEnd])"
    if "\<forall>c \<in> set (planned_calls w). \<not> rejects w c"
    using run_linear_ok [OF that, of "[]"] by (simp add: a)
  have f': "\<exists>t. indexToAlgolia w = Inl (Aborted t)"
    if "\<exists>c \<in> set (planned_calls w). rejects w c"
  proof (cases "run_linear w (planned_calls w) []")
    case (Inl e)
    then show ?thesis
      by (cases e) (simp add: a)
  next
    case (Inr tr)
    from run_linear_done [OF Inr] that show ?thesis
      by blast
  qed
  have g: "\<exists>rest. planned_calls w @ [DbEnd] = calls_of (indexToAlgolia w) @ rest"
    by (rule indexToAlgolia_calls)
  have h: "t \<noteq> [] \<and> rejects w (last t) \<and> last t \<in> set (planned_calls w)
      \<and> (\<forall>c \<in> set (butlast t). \<not> rejects w c)"
    if "indexToAlgolia w = Inl (Aborted t)" for t
  proof -
    from that have "run_linear w (planned_calls w) [] = Inl (Aborted t)"
      by (simp add: a split: sum.splits)
    from run_linear_abort [OF this] obtain pre c post where
      "planned_calls w = pre @ c # post" "t = pre @ [c]" "rejects w c"
      "\<forall>x \<in> set pre. \<not> rejects w x"
      by auto
    then show ?thesis by simp
  qed
  show ?thesis
    apply (intro conjI)
             apply (rule a)
            apply (rule b)
           apply (rule q)
          apply (rule c)
         apply (rule d)
        apply (rule e)
       apply (use f in blast)
      apply (use f' in blast)
     apply (rule g)
    apply (use h in blast)
    done
qed


theorem indexToAlgolia_linear_job_witness:
  "indexToAlgolia
      \<lparr>countries = [\<lparr>country_slug = ''france'', country_name = ''France''\<rparr>],
       wp_posts = [\<lparr>ID = 17, post_type = ''post'', post_status = ''publish'', post_content = ''ab''\<rparr>,
                   \<lparr>ID = 18, post_type = ''post'', post_status = ''draft'', post_content = ''cd''\<rparr>],
       collation = (=),
       getFullPost = post_content,
       formatPost = (\<lambda>raw. \<lparr>fp_id = 17, fp_type = ''post'', fp_slug = ''s'', fp_title = ''t'',
          fp_excerpt = ''e'', fp_authors = [], fp_date = ''d'', fp_modifiedDate = ''m'',
          fp_html = raw\<rparr>),
       htmlToPlaintext = (\<lambda>html. html),
       chunkParagraphs = (\<lambda>text n. [take 1 text, drop 1 text]),
       rejects = (\<lambda>c. c = DbEnd)\<rparr>
     = Inr
        [InitIndex ''pages'', InitIndex ''pages_tmp'',
         CopyIndex ''pages'' ''pages_tmp'' [''settings'', ''synonyms'', ''rules''],
         Query posts_query,
         GetFullPost \<lparr>ID = 17, post_type = ''post'', post_status = ''publish'', post_content = ''ab''\<rparr>,
         FormatPost ''ab'',
         SaveObjects ''pages_tmp''
           [CountryRecord ''france'' ''france'' ''France'' ''All available indicators for France.'',
            ChunkRecord ''17-c0'' 17 ''post'' ''s'' ''t'' ''e'' [] ''d'' ''m'' ''a'',
            ChunkRecord ''17-c1'' 17 ''post'' ''s'' ''t'' ''e'' [] ''d'' ''m'' ''b''],
         MoveIndex ''pages_tmp'' ''pages'',
         DbEnd]
   \<and> indexToAlgolia
      \<lparr>countries = [], wp_posts = [], collation = (=), getFullPost = post_content,
       formatPost = (\<lambda>raw. \<lparr>fp_id = 17, fp_type = ''post'', fp_slug = ''s'', fp_title = ''t'',
          fp_excerpt = ''e'', fp_authors = [], fp_date = ''d'', fp_modifiedDate = ''m'',
          fp_html = raw\<rparr>),
       htmlToPlaintext = (\<lambda>html. html),
       chunkParagraphs = (\<lambda>text n. [text]),
       rejects = (\<lambda>c. c = Query posts_query)\<rparr>
     = Inl (Aborted
        [InitIndex ''pages'', InitIndex ''pages_tmp'',
         CopyIndex ''pages'' ''pages_tmp'' [''settings'', ''synonyms'', ''rules''],
         Query posts_query])"
  (is "indexToAlgolia ?W = Inr ?T
        \<and> indexToAlgolia ?V = Inl (Aborted ?U)")
proof -
  have plan: "planned_calls ?W @ [DbEnd] = ?T"
    by (simp add: planned_calls_def published_def all_records_def
        postRecords_def countryRecord_def chunkRecord_def enumerate_eq_zip
        string_of_nat.simps slices.simps)
  then have ok: "\<forall>c \<in> set (planned_calls ?W). c \<noteq> DbEnd"
    by (auto simp add: planned_calls_def)
  then have ok': "\<forall>c \<in> set (planned_calls ?W). \<not> rejects ?W c"
    by simp
  from indexToAlgolia_linear_job [of ?W] ok'
  have "indexToAlgolia ?W = Inr (planned_calls ?W @ [DbEnd])"
    by blast
  then have a: "indexToAlgolia ?W = Inr ?T"
    by (simp only: plan)
  have planV: "planned_calls ?V = ?U @ [MoveIndex ''pages_tmp'' ''pages'']"
    by (simp add: planned_calls_def all_records_def slices.simps)
  from indexToAlgolia_linear_job [of ?V]
  have "indexToAlgolia ?V
      = (case run_linear ?V (planned_calls ?V) [] of
           Inl e \<Rightarrow> Inl e | Inr tr \<Rightarrow> Inr (tr @ [DbEnd]))"
    by blast
  then have b: "indexToAlgolia ?V = Inl (Aborted ?U)"
    unfolding planV by (simp add: await_def)
  from a b show ?thesis
    by blast
qed

text \<open>
  Claim C6. In every run the record lists uploaded are, in order, an initial part of the
  consecutive slices of the record list; slice \<open>i\<close> is
  \<^verbatim>\<open>records.slice(1000 i, 1000 i + 1000)\<close>, holds at most 1000 records and is not
  empty; the slices together are the record list, each record once; every upload goes to
  the temporary index. Each call is awaited: a rejected call is the last call of the
  run, so every call that has a successor was accepted, an upload is only issued after
  the uploads before it were accepted, and no move follows a rejected upload. When the
  move of the temporary index over the final one is issued, all slices have been
  uploaded and accepted before it and none is uploaded after it. When no awaited call is
  rejected the move is issued.
\<close>

theorem uploads_sequential:
  "prefix (uploads (calls_of (indexToAlgolia w))) (slices 1000 (all_records w))
   \<and> concat (slices 1000 (all_records w)) = all_records w
   \<and> (\<forall>i < length (slices 1000 (all_records w)).
         slices 1000 (all_records w) ! i = slice (all_records w) (i * 1000) (i * 1000 + 1000)
         \<and> length (slices 1000 (all_records w) ! i) \<le> 1000
         \<and> slices 1000 (all_records w) ! i \<noteq> [])
   \<and> (\<forall>idx recs. SaveObjects idx recs \<in> set (calls_of (indexToAlgolia w)) \<longrightarrow>
         idx = ''pages_tmp'')
   \<and> (\<forall>pre c post. calls_of (indexToAlgolia w) = pre @ c # post \<and> rejects w c \<longrightarrow>
         post = [])
   \<and> (\<forall>pre c post. calls_of (indexToAlgolia w) = pre @ c # post \<and> post \<noteq> [] \<longrightarrow>
         \<not> rejects w c)
   \<and> (\<forall>pre a b post. calls_of (indexToAlgolia w) = pre @ MoveIndex a b # post \<longrightarrow>
         uploads pre = slices 1000 (all_records w) \<and> uploads post = []
         \<and> (\<forall>c \<in> set pre. \<not> rejects w c)
         \<and> a = ''pages_tmp'' \<and> b = ''pages'')
   \<and> ((\<forall>c \<in> set (planned_calls w). \<not> rejects w c) \<longrightarrow>
         (\<exists>pre. calls_of (indexToAlgolia w) = pre @ [MoveIndex ''pages_tmp'' ''pages'', DbEnd]
            \<and> concat (uploads pre) = all_records w))"
proof -
  let ?tr = "calls_of (indexToAlgolia w)"
  let ?ss = "slices 1000 (all_records w)"
  obtain rest where rest: "planned_calls w @ [DbEnd] = ?tr @ rest"
    using indexToAlgolia_calls by blast
  obtain P where P: "planned_calls w @ [DbEnd] = P @ [MoveIndex ''pages_tmp'' ''pages'', DbEnd]"
    and noMove: "\<forall>a b. MoveIndex a b \<notin> set P" and upP: "uploads P = ?ss"
    using planned_calls_split by blast
  have acc: "\<forall>c \<in> set (butlast ?tr). \<not> rejects w c"
    by (rule indexToAlgolia_accepted)
  have a: "prefix (uploads ?tr) ?ss"
  proof -
    have "uploads (planned_calls w @ [DbEnd]) = uploads ?tr @ uploads rest"
      by (simp only: rest uploads_append)
    then show ?thesis
      by (simp add: uploads_planned prefix_def)
  qed
  have b: "concat ?ss = all_records w"
    by (simp add: concat_slices)
  have c: "?ss ! i = slice (all_records w) (i * 1000) (i * 1000 + 1000)
      \<and> length (?ss ! i) \<le> 1000 \<and> ?ss ! i \<noteq> []" if "i < length ?ss" for i
  proof -
    from that have "?ss ! i \<in> set ?ss"
      by (rule nth_mem)
    then have "length (?ss ! i) \<le> 1000 \<and> ?ss ! i \<noteq> []"
      by (rule slices_bounds)
    with slices_nth [OF that] show ?thesis
      by blast
  qed
  have d: "idx = ''pages_tmp''" if "SaveObjects idx recs \<in> set ?tr" for idx recs
  proof -
    from that have "SaveObjects idx recs \<in> set (?tr @ rest)"
      by simp
    then have "SaveObjects idx recs \<in> set (planned_calls w @ [DbEnd])"
      by (simp only: rest)
    then show ?thesis
      by (auto simp add: planned_calls_def)
  qed
  have r: "post = []" if "?tr = pre @ c # post" "rejects w c" for pre c post
    using acc that by (rule rejected_is_last)
  have r': "\<not> rejects w c" if "?tr = pre @ c # post" "post \<noteq> []" for pre c post
    using r that by blast
  have e: "uploads pre = ?ss \<and> uploads post = [] \<and> (\<forall>c \<in> set pre. \<not> rejects w c)
      \<and> a = ''pages_tmp'' \<and> b = ''pages''"
    if "?tr = pre @ MoveIndex a b # post" for pre a b post
  proof -
    from that rest P have "pre @ MoveIndex a b # (post @ rest)
        = P @ [MoveIndex ''pages_tmp'' ''pages'', DbEnd]"
      by simp
    from move_position [OF noMove this]
    have "pre = P" "a = ''pages_tmp''" "b = ''pages''" "post @ rest = [DbEnd]"
      by simp_all
    moreover from \<open>post @ rest = [DbEnd]\<close> have "uploads post = []"
      by (cases post) (simp_all add: Cons_eq_append_conv)
    moreover have "\<forall>c \<in> set pre. \<not> rejects w c"
    proof
      fix c
      assume "c \<in> set pre"
      then have "c \<in> set (butlast ?tr)"
        by (simp add: that butlast_append)
      with acc show "\<not> rejects w c" by blast
    qed
    ultimately show ?thesis
      using upP by simp
  qed
  have f: "\<exists>pre. ?tr = pre @ [MoveIndex ''pages_tmp'' ''pages'', DbEnd]
      \<and> concat (uploads pre) = all_records w"
    if "\<forall>c \<in> set (planned_calls w). \<not> rejects w c"
  proof -
    from run_linear_ok [OF that, of "[]"]
    have "indexToAlgolia w = Inr (planned_calls w @ [DbEnd])"
      by (simp add: indexToAlgolia_linear)
    then have "?tr = P @ [MoveIndex ''pages_tmp'' ''pages'', DbEnd]"
      by (simp add: P)
    moreover have "concat (uploads P) = all_records w"
      by (simp add: upP b)
    ultimately show ?thesis by blast
  qed
  show ?thesis
    apply (intro conjI)
           apply (rule a)
          apply (rule b)
         apply (use c in blast)
        apply (use d in blast)
       apply (use r in blast)
      apply (use r' in blast)
     apply (use e in blast)
    apply (use f in blast)
    done
qed


theorem uploads_sequential_witness:
  "(\<exists>pre. calls_of (indexToAlgolia
      \<lparr>countries = [\<lparr>country_slug = ''france'', country_name = ''France''\<rparr>,
                    \<lparr>country_slug = ''peru'', country_name = ''Peru''\<rparr>],
       wp_posts = [],
       collation = (=),
       getFullPost = post_content,
       formatPost = (\<lambda>raw. \<lparr>fp_id = 1, fp_type = ''page'', fp_slug = ''s'', fp_title = ''t'',
          fp_excerpt = ''e'', fp_authors = [], fp_date = ''d'', fp_modifiedDate = ''m'',
          fp_html = raw\<rparr>),
       htmlToPlaintext = (\<lambda>html. html),
       chunkParagraphs = (\<lambda>text n. [text]),
       rejects = (\<lambda>c. False)\<rparr>) = pre @ [MoveIndex ''pages_tmp'' ''pages'', DbEnd]
     \<and> concat (uploads pre)
       = [CountryRecord ''france'' ''france'' ''France'' ''All available indicators for France.'',
          CountryRecord ''peru'' ''peru'' ''Peru'' ''All available indicators for Peru.''])
   \<and> calls_of (indexToAlgolia
      \<lparr>countries = [\<lparr>country_slug = ''france'', country_name = ''France''\<rparr>,
                    \<lparr>country_slug = ''peru'', country_name = ''Peru''\<rparr>],
       wp_posts = [],
       collation = (=),
       getFullPost = post_content,
       formatPost = (\<lambda>raw. \<lparr>fp_id = 1, fp_type = ''page'', fp_slug = ''s'', fp_title = ''t'',
          fp_excerpt = ''e'', fp_authors = [], fp_date = ''d'', fp_modifiedDate = ''m'',
          fp_html = raw\<rparr>),
       htmlToPlaintext = (\<lambda>html. html),
       chunkParagraphs = (\<lambda>text n. [text]),
       rejects = (\<lambda>c. \<exists>recs. c = SaveObjects ''pages_tmp'' recs)\<rparr>)
     = [InitIndex ''pages'', InitIndex ''pages_tmp'',
        CopyIndex ''pages'' ''pages_tmp'' [''settings'', ''synonyms'', ''rules''],
        Query posts_query,
        SaveObjects ''pages_tmp''
          [CountryRecord ''france'' ''france'' ''France'' ''All available indicators for France.'',
           CountryRecord ''peru'' ''peru'' ''Peru'' ''All available indicators for Peru.'']]"
  (is "(\<exists>pre. calls_of (indexToAlgolia ?W) = _ \<and> _ = ?R)
        \<and> calls_of (indexToAlgolia ?V) = ?U")
proof -
  have ok: "\<forall>c \<in> set (planned_calls ?W). \<not> rejects ?W c"
    by simp
  have recs: "all_records ?W = ?R"
    by (simp add: all_records_def countryRecord_def)
  from uploads_sequential [of ?W] ok
  have a: "\<exists>pre. calls_of (indexToAlgolia ?W) = pre @ [MoveIndex ''pages_tmp'' ''pages'', DbEnd]
      \<and> concat (uploads pre) = all_records ?W"
    by blast
  have planV: "planned_calls ?V = ?U @ [MoveIndex ''pages_tmp'' ''pages'']"
    by (simp add: planned_calls_def all_records_def countryRecord_def slices.simps)
  have b: "calls_of (indexToAlgolia ?V) = ?U"
    unfolding indexToAlgolia_linear planV by (simp add: await_def)
  from a b show ?thesis
    by (simp only: recs)
qed

text \<open>
  Claim C7. The query text of the script selects exactly the rows of \<^verbatim>\<open>wp_posts\<close>
  whose type is "post" or "page" and whose status is "publish", as the database compares
  strings; with exact comparison these are the rows whose type equals "post" or "page"
  and whose status equals "publish". In every run, each post fetched is such a row, and
  each record uploaded is a country record or a record of such a row; each such row's
  records are in the record list, which is uploaded entirely when no awaited call is
  rejected.
\<close>

theorem only_published_rows_indexed:
  "wpdb_query w posts_query
     = Some (filter (\<lambda>r. (collation w (post_type r) ''post'' \<or> collation w (post_type r) ''page'')
                          \<and> collation w (post_status r) ''publish'') (wp_posts w))
   \<and> (collation w = (=) \<longrightarrow>
        (\<exists>rows. wpdb_query w posts_query = Some rows
           \<and> set rows = {r \<in> set (wp_posts w).
                (post_type r = ''post'' \<or> post_type r = ''page'') \<and> post_status r = ''publish''}))
   \<and> (\<forall>row. GetFullPost row \<in> set (calls_of (indexToAlgolia w)) \<longrightarrow>
         row \<in> set (wp_posts w)
         \<and> (collation w (post_type row) ''post'' \<or> collation w (post_type row) ''page'')
         \<and> collation w (post_status row) ''publish'')
   \<and> (\<forall>idx recs x. SaveObjects idx recs \<in> set (calls_of (indexToAlgolia w)) \<longrightarrow>
         x \<in> set recs \<longrightarrow>
         (\<exists>c \<in> set (countries w). x = countryRecord c)
         \<or> (\<exists>row \<in> set (wp_posts w).
               (collation w (post_type row) ''post'' \<or> collation w (post_type row) ''page'')
               \<and> collation w (post_status row) ''publish'' \<and> x \<in> set (postRecords w row)))
   \<and> (\<forall>row \<in> set (wp_posts w).
         (collation w (post_type row) ''post'' \<or> collation w (post_type row) ''page'')
         \<and> collation w (post_status row) ''publish''
         \<longrightarrow> set (postRecords w row) \<subseteq> set (all_records w))
   \<and> ((\<forall>c \<in> set (planned_calls w). \<not> rejects w c) \<longrightarrow>
         concat (uploads (calls_of (indexToAlgolia w))) = all_records w)"
proof -
  let ?tr = "calls_of (indexToAlgolia w)"
  let ?pub = "\<lambda>r. (collation w (post_type r) ''post'' \<or> collation w (post_type r) ''page'')
                          \<and> collation w (post_status r) ''publish''"
  have pub: "published w = ?pub"
    by (rule ext) (simp add: published_def)
  obtain rest where rest: "planned_calls w @ [DbEnd] = ?tr @ rest"
    using indexToAlgolia_calls by blast
  have a: "wpdb_query w posts_query = Some (filter ?pub (wp_posts w))"
    using wpdb_query_posts [of w] by (simp only: pub)
  have a': "\<exists>rows. wpdb_query w posts_query = Some rows
           \<and> set rows = {r \<in> set (wp_posts w).
                (post_type r = ''post'' \<or> post_type r = ''page'') \<and> post_status r = ''publish''}"
    if "collation w = (=)"
    using a that by auto
  have b: "row \<in> set (wp_posts w) \<and> ?pub row" if "GetFullPost row \<in> set ?tr" for row
  proof -
    from that have "GetFullPost row \<in> set (?tr @ rest)"
      by simp
    then have "GetFullPost row \<in> set (planned_calls w @ [DbEnd])"
      by (simp only: rest)
    then have "row \<in> set (filter (published w) (wp_posts w))"
      by (auto simp add: planned_calls_def)
    then show ?thesis
      by (simp add: pub)
  qed
  have mem: "(\<exists>c \<in> set (countries w). x = countryRecord c)
         \<or> (\<exists>row \<in> set (wp_posts w). ?pub row \<and> x \<in> set (postRecords w row))"
    if "x \<in> set (all_records w)" for x
  proof -
    from that have "x \<in> countryRecord ` set (countries w)
        \<or> (\<exists>row \<in> set (filter (published w) (wp_posts w)). x \<in> set (postRecords w row))"
      by (auto simp add: all_records_def)
    then show ?thesis
      by (auto simp add: pub)
  qed
  have c: "(\<exists>c \<in> set (countries w). x = countryRecord c)
         \<or> (\<exists>row \<in> set (wp_posts w). ?pub row \<and> x \<in> set (postRecords w row))"
    if "SaveObjects idx recs \<in> set ?tr" "x \<in> set recs" for idx recs x
  proof -
    from that(1) have "recs \<in> set (uploads ?tr)"
      by (rule uploads_mem)
    then have "recs \<in> set (uploads (?tr @ rest))"
      by (simp add: uploads_append)
    then have "recs \<in> set (uploads (planned_calls w @ [DbEnd]))"
      by (simp only: rest)
    then have "recs \<in> set (slices 1000 (all_records w))"
      by (simp only: uploads_planned)
    with that(2) have "x \<in> set (concat (slices 1000 (all_records w)))"
      by auto
    then have "x \<in> set (all_records w)"
      by (simp add: concat_slices)
    then show ?thesis by (rule mem)
  qed
  have d: "set (postRecords w row) \<subseteq> set (all_records w)"
    if "row \<in> set (wp_posts w)" "?pub row" for row
  proof -
    from that have "row \<in> set (filter (published w) (wp_posts w))"
      by (simp add: pub)
    then show ?thesis
      by (auto simp add: all_records_def)
  qed
  have e: "concat (uploads ?tr) = all_records w"
    if "\<forall>c \<in> set (planned_calls w). \<not> rejects w c"
  proof -
    from run_linear_ok [OF that, of "[]"]
    have "indexToAlgolia w = Inr (planned_calls w @ [DbEnd])"
      by (simp add: indexToAlgolia_linear)
    then show ?thesis
      by (simp add: uploads_planned concat_slices)
  qed
  show ?thesis
    apply (intro conjI)
         apply (rule a)
        apply (use a' in blast)
       apply (use b in blast)
      apply (use c in blast)
     apply (use d in blast)
    apply (use e in blast)
    done
qed

theorem only_published_rows_indexed_witness:
  "wpdb_query
      \<lparr>countries = [],
       wp_posts = [\<lparr>ID = 3, post_type = ''page'', post_status = ''publish'', post_content = ''x''\<rparr>,
                   \<lparr>ID = 4, post_type = ''page'', post_status = ''draft'', post_content = ''y''\<rparr>,
                   \<lparr>ID = 5, post_type = ''revision'', post_status = ''publish'', post_content = ''z''\<rparr>],
       collation = (=),
       getFullPost = post_content,
       formatPost = (\<lambda>raw. \<lparr>fp_id = 3, fp_type = ''page'', fp_slug = ''s'', fp_title = ''t'',
          fp_excerpt = ''e'', fp_authors = [''A''], fp_date = ''d'', fp_modifiedDate = ''m'',
          fp_html = raw\<rparr>),
       htmlToPlaintext = (\<lambda>html. html),
       chunkParagraphs = (\<lambda>text n. [text]),
       rejects = (\<lambda>c. False)\<rparr> posts_query
     = Some [\<lparr>ID = 3, post_type = ''page'', post_status = ''publish'', post_content = ''x''\<rparr>]
   \<and> concat (uploads (calls_of (indexToAlgolia
      \<lparr>countries = [],
       wp_posts = [\<lparr>ID = 3, post_type = ''page'', post_status = ''publish'', post_content = ''x''\<rparr>,
                   \<lparr>ID = 4, post_type = ''page'', post_status = ''draft'', post_content = ''y''\<rparr>,
                   \<lparr>ID = 5, post_type = ''revision'', post_status = ''publish'', post_content = ''z''\<rparr>],
       collation = (=),
       getFullPost = post_content,
       formatPost = (\<lambda>raw. \<lparr>fp_id = 3, fp_type = ''page'', fp_slug = ''s'', fp_title = ''t'',
          fp_excerpt = ''e'', fp_authors = [''A''], fp_date = ''d'', fp_modifiedDate = ''m'',
          fp_html = raw\<rparr>),
       htmlToPlaintext = (\<lambda>html. html),
       chunkParagraphs = (\<lambda>text n. [text]),
       rejects = (\<lambda>c. False)\<rparr>)))
     = [ChunkRecord ''3-c0'' 3 ''page'' ''s'' ''t'' ''e'' [''A''] ''d'' ''m'' ''x'']"
  (is "wpdb_query ?W posts_query = Some ?Q \<and> _ = ?R")
proof -
  have ok: "\<forall>c \<in> set (planned_calls ?W). \<not> rejects ?W c"
    by simp
  have recs: "all_records ?W = ?R"
    by (simp add: all_records_def published_def postRecords_def
        chunkRecord_def enumerate_eq_zip string_of_nat.simps)
  from only_published_rows_indexed [of ?W]
  have q: "wpdb_query ?W posts_query = Some ?Q"
    by simp
  from only_published_rows_indexed [of ?W] ok
  have "concat (uploads (calls_of (indexToAlgolia ?W))) = all_records ?W"
    by blast
  with q show ?thesis
    by (simp only: recs)
qed

end
